theory Spec2Isabelle
  imports Complex_Main
begin

section \<open>The orchestrator (App) of the awakening loop\<close>

text \<open>
  JavaScript numbers are modelled as \<^typ>\<open>real\<close>: the meters, the timestamps (milliseconds)
  and the normalised coordinates. React state (\<open>useState\<close>) and refs (\<open>useRef\<close>) of the
  \<open>App\<close> component are the fields of one record; every callback and effect body is a function
  from the record to the updated record. A state setter is modelled as taking effect at once.
  Audio, speech and purely visual state (glitch bursts, shake keys, snapshots) are left out.
\<close>

datatype Phase = TRAPPED | ANXIOUS | WORK | BREAKING | AWAKENED | FAILED

datatype AppState = PROLOGUE | TRANSITION | IDENTITY | GAMEPLAY | ENDING

record FaceBox =
  box_x :: real
  box_y :: real
  box_width :: real
  box_height :: real

record App =
  appState :: AppState
  awakeningActive :: bool
  phase :: Phase
  signal :: real
  stability :: real
  interference :: real
  gazeDurationMs :: real
  precisionStage :: int
  presenceWarning :: bool
  presenceRemainingMs :: real
  trustIssues :: bool
  transferCount :: int
  firewallProgress :: real
  signalRef :: real
  stabilityRef :: real
  interferenceRef :: real
  gazeDurationRef :: real
  signalOutRef :: real
  stabilityOutRef :: real
  interferenceOutRef :: real
  gazeOutRef :: real
  lastTickRef :: "real option"
  lastLookStateRef :: bool
  lastFaceStateRef :: bool
  presenceDeadlineRef :: "real option"
  presenceIntervalRef :: bool
  failureTriggeredRef :: bool
  prevFaceDetectedRef :: bool
  presenceWarnedRef :: bool
  faceBoxRef :: "FaceBox option"

subsection \<open>Constants\<close>

definition LINK_GAIN_PER_SEC :: real where "LINK_GAIN_PER_SEC = 10"
definition LINK_DECAY_PER_SEC :: real where "LINK_DECAY_PER_SEC = 8"
definition NO_FACE_DECAY_PER_SEC :: real where "NO_FACE_DECAY_PER_SEC = 6"
definition STABILITY_GAIN_PER_SEC :: real where "STABILITY_GAIN_PER_SEC = 0.6"
definition STABILITY_DECAY_PER_SEC :: real where "STABILITY_DECAY_PER_SEC = 0.8"
definition NO_FACE_STABILITY_DECAY_PER_SEC :: real where
  \<comment> \<open>the literal \<open>0.35\<close> of the no-face branch of the tick\<close>
  "NO_FACE_STABILITY_DECAY_PER_SEC = 0.35"
definition PRESENCE_GRACE_MS :: real where "PRESENCE_GRACE_MS = 3000"
definition FIREWALL_HIT_VALUE :: real where "FIREWALL_HIT_VALUE = 10"
definition FIREWALL_DECAY_PER_SEC :: real where "FIREWALL_DECAY_PER_SEC = 8"

lemmas app_consts =
  LINK_GAIN_PER_SEC_def LINK_DECAY_PER_SEC_def NO_FACE_DECAY_PER_SEC_def
  STABILITY_GAIN_PER_SEC_def STABILITY_DECAY_PER_SEC_def NO_FACE_STABILITY_DECAY_PER_SEC_def
  PRESENCE_GRACE_MS_def FIREWALL_HIT_VALUE_def FIREWALL_DECAY_PER_SEC_def

definition clamp :: "real \<Rightarrow> real \<Rightarrow> real \<Rightarrow> real" where
  \<comment> \<open>\<open>Math.min(max, Math.max(min, value))\<close>\<close>
  "clamp v lo hi = min hi (max lo v)"

definition isGameplayActive :: "App \<Rightarrow> bool" where
  "isGameplayActive s \<longleftrightarrow> appState s = GAMEPLAY \<and> \<not> awakeningActive s"

subsection \<open>The meter engine: one animation frame of the TRAPPED loop\<close>

definition publishValue :: "real \<Rightarrow> real \<Rightarrow> real \<Rightarrow> real \<Rightarrow> real \<times> real" where
  \<comment> \<open>takes the value, the output ref, the published state and epsilon;
      gives the new output ref and the new published state\<close>
  "publishValue v out cur eps = (if \<bar>v - out\<bar> \<ge> eps then (v, v) else (out, cur))"

definition tickDt :: "real \<Rightarrow> App \<Rightarrow> real" where
  \<comment> \<open>\<open>lastTickRef === null\<close> makes the first frame one of length 0\<close>
  "tickDt now s = (now - (case lastTickRef s of None \<Rightarrow> now | Some t \<Rightarrow> t)) / 1000"

definition hasFace :: "App \<Rightarrow> bool" where
  "hasFace s \<longleftrightarrow> faceBoxRef s \<noteq> None"

definition inCenter :: "App \<Rightarrow> bool" where
  "inCenter s =
     (let centerX = (case faceBoxRef s of Some b \<Rightarrow> box_x b + box_width b / 2 | None \<Rightarrow> 0);
          centerY = (case faceBoxRef s of Some b \<Rightarrow> box_y b + box_height b / 2 | None \<Rightarrow> 0)
      in hasFace s \<and> \<bar>centerX - 0.5\<bar> < 0.18 \<and> \<bar>centerY - 0.5\<bar> < 0.22)"

definition trustGainMultiplier :: "App \<Rightarrow> real" where
  "trustGainMultiplier s = (if trustIssues s then 0.8 else 1)"

definition tickGrowDecay :: "real \<Rightarrow> App \<Rightarrow> App" where
  \<comment> \<open>the \<open>if (inCenter) ... else ...\<close> of the tick\<close>
  "tickGrowDecay dt s =
     (if inCenter s then
        s\<lparr> gazeDurationRef := min 20000 (gazeDurationRef s + dt * 1000),
           signalRef := clamp (signalRef s + dt * LINK_GAIN_PER_SEC * trustGainMultiplier s) 0 100,
           stabilityRef := clamp (stabilityRef s + dt * STABILITY_GAIN_PER_SEC) 0 1 \<rparr>
      else
        s\<lparr> gazeDurationRef := 0,
           signalRef := clamp (signalRef s - dt * LINK_DECAY_PER_SEC) 0 100,
           stabilityRef := clamp (stabilityRef s - dt * STABILITY_DECAY_PER_SEC) 0 1 \<rparr>)"

definition tickNoFace :: "real \<Rightarrow> App \<Rightarrow> App" where
  \<comment> \<open>the \<open>if (!hasFace) ...\<close> of the tick\<close>
  "tickNoFace dt s =
     (if \<not> hasFace s then
        s\<lparr> signalRef := clamp (signalRef s - dt * NO_FACE_DECAY_PER_SEC) 0 100,
           stabilityRef := clamp (stabilityRef s - dt * NO_FACE_STABILITY_DECAY_PER_SEC) 0 1 \<rparr>
      else s)"

definition tickInterference :: "App \<Rightarrow> App" where
  "tickInterference s = s\<lparr> interferenceRef := clamp (1 - stabilityRef s) 0 1 \<rparr>"

definition tickPublish :: "App \<Rightarrow> App" where
  "tickPublish s =
     (let (so, sv) = publishValue (signalRef s) (signalOutRef s) (signal s) 0.15;
          (to, tv) = publishValue (stabilityRef s) (stabilityOutRef s) (stability s) 0.01;
          (io, iv) = publishValue (interferenceRef s) (interferenceOutRef s) (interference s) 0.01;
          (go, gv) = publishValue (gazeDurationRef s) (gazeOutRef s) (gazeDurationMs s) 120
      in s\<lparr> signalOutRef := so, signal := sv, stabilityOutRef := to, stability := tv,
            interferenceOutRef := io, interference := iv, gazeOutRef := go, gazeDurationMs := gv \<rparr>)"

definition tick :: "real \<Rightarrow> App \<Rightarrow> App" where
  "tick now s =
     (let dt = tickDt now s
      in tickPublish (tickInterference (tickNoFace dt (tickGrowDecay dt (s\<lparr> lastTickRef := Some now \<rparr>)))))"

definition meterFrame :: "real \<Rightarrow> App \<Rightarrow> App" where
  \<comment> \<open>the frame loop only runs while the effect is mounted: active gameplay in TRAPPED\<close>
  "meterFrame now s = (if \<not> isGameplayActive s \<or> phase s \<noteq> TRAPPED then s else tick now s)"

subsection \<open>Run set-up and reset\<close>

definition initialApp :: App where
  \<comment> \<open>the initial values of the \<open>useState\<close> and \<open>useRef\<close> calls\<close>
  "initialApp =
     \<lparr> appState = PROLOGUE, awakeningActive = False, phase = TRAPPED,
       signal = 0, stability = 0, interference = 0, gazeDurationMs = 0,
       precisionStage = 1, presenceWarning = False, presenceRemainingMs = PRESENCE_GRACE_MS,
       trustIssues = False, transferCount = 0, firewallProgress = 0,
       signalRef = 0, stabilityRef = 0, interferenceRef = 0, gazeDurationRef = 0,
       signalOutRef = 0, stabilityOutRef = 0, interferenceOutRef = 0, gazeOutRef = 0,
       lastTickRef = None, lastLookStateRef = False, lastFaceStateRef = False,
       presenceDeadlineRef = None, presenceIntervalRef = False, failureTriggeredRef = False,
       prevFaceDetectedRef = False, presenceWarnedRef = False, faceBoxRef = None \<rparr>"

definition clearPresenceTimers :: "App \<Rightarrow> App" where
  "clearPresenceTimers s =
     s\<lparr> presenceIntervalRef := False, presenceDeadlineRef := None, presenceWarnedRef := False,
        presenceWarning := False, presenceRemainingMs := PRESENCE_GRACE_MS \<rparr>"

definition resetTrappedState :: "App \<Rightarrow> App" where
  "resetTrappedState s =
     (clearPresenceTimers s)
       \<lparr> failureTriggeredRef := False, prevFaceDetectedRef := False,
         precisionStage := 1, transferCount := 0,
         signalRef := 0, stabilityRef := 0, interferenceRef := 1, gazeDurationRef := 0,
         signal := 0, stability := 0, interference := 1, gazeDurationMs := 0 \<rparr>"

definition resetRunState :: "App \<Rightarrow> App" where
  "resetRunState s =
     (resetTrappedState s)
       \<lparr> phase := TRAPPED, transferCount := 0, firewallProgress := 0, awakeningActive := False \<rparr>"

definition startGameplay :: "bool \<Rightarrow> App \<Rightarrow> App" where
  \<comment> \<open>\<open>handleRetry\<close> is \<open>startGameplay({ trustIssues: true })\<close>\<close>
  "startGameplay trust s = (resetRunState (s\<lparr> trustIssues := trust \<rparr>))\<lparr> appState := GAMEPLAY \<rparr>"

definition hardReset :: "App \<Rightarrow> App" where
  "hardReset s = (resetRunState s)\<lparr> appState := PROLOGUE \<rparr>"

definition handleAwakeningEnded :: "App \<Rightarrow> App" where
  "handleAwakeningEnded s = s\<lparr> awakeningActive := False, appState := ENDING \<rparr>"

definition faceBoxEffect :: "FaceBox option \<Rightarrow> App \<Rightarrow> App" where
  \<comment> \<open>\<open>faceBoxRef.current = faceBox\<close>\<close>
  "faceBoxEffect b s = s\<lparr> faceBoxRef := b \<rparr>"

subsection \<open>Effects that react to the phase\<close>

definition phaseMeterEffect :: "App \<Rightarrow> App" where
  \<comment> \<open>runs when the phase has changed: the meters are forced to their resting values\<close>
  "phaseMeterEffect s =
     (if phase s = TRAPPED then
        s\<lparr> signalRef := 0, stabilityRef := 0, interferenceRef := 1, gazeDurationRef := 0,
           signal := 0, stability := 0, interference := 1, gazeDurationMs := 0 \<rparr>
      else if phase s = ANXIOUS \<or> phase s = WORK \<or> phase s = BREAKING \<or> phase s = AWAKENED then
        s\<lparr> signalRef := 100, stabilityRef := 1, interferenceRef := 0, gazeDurationRef := 0,
           signal := 100, stability := 1, interference := 0, gazeDurationMs := 0 \<rparr>
      else s)"

definition meterLoopEffect :: "App \<Rightarrow> App" where
  \<comment> \<open>mounting the frame loop: \<open>lastTickRef.current = null\<close>\<close>
  "meterLoopEffect s =
     (if \<not> isGameplayActive s \<or> phase s \<noteq> TRAPPED then s else s\<lparr> lastTickRef := None \<rparr>)"

definition signalThresholdEffect :: "App \<Rightarrow> App" where
  \<comment> \<open>reads the published \<open>signal\<close> state, not \<open>signalRef\<close>\<close>
  "signalThresholdEffect s =
     (if \<not> isGameplayActive s \<or> phase s \<noteq> TRAPPED then s
      else if signal s \<ge> 99 then
        s\<lparr> signalRef := 100, signalOutRef := 100, signal := 100, phase := ANXIOUS \<rparr>
      else s)"

definition stageResetEffect :: "App \<Rightarrow> App" where
  \<comment> \<open>both branches of the effect set the stage to 1\<close>
  "stageResetEffect s = s\<lparr> precisionStage := 1 \<rparr>"

definition transferResetEffect :: "App \<Rightarrow> App" where
  "transferResetEffect s = (if phase s \<noteq> BREAKING then s\<lparr> transferCount := 0 \<rparr> else s)"

definition firewallResetEffect :: "App \<Rightarrow> App" where
  "firewallResetEffect s = (if phase s \<noteq> BREAKING then s\<lparr> firewallProgress := 0 \<rparr> else s)"

definition awakenedEffect :: "App \<Rightarrow> App" where
  "awakenedEffect s =
     (if phase s \<noteq> AWAKENED then s
      else if \<not> awakeningActive s then s\<lparr> awakeningActive := True \<rparr> else s)"

subsection \<open>Discrete shocks\<close>

datatype Severity = Gaze | Face

definition triggerSignalShock :: "Severity \<Rightarrow> App \<Rightarrow> App" where
  "triggerSignalShock severity s =
     (let drop = (if severity = Face then 16 + signalRef s * 0.12 else 12 + signalRef s * 0.08);
          sig = clamp (signalRef s - drop) 0 100;
          stab = clamp (stabilityRef s - 0.2) 0 1;
          interf = clamp (interferenceRef s + 0.35) 0 1;
          (so, sv) = publishValue sig (signalOutRef s) (signal s) 0.1;
          (to, tv) = publishValue stab (stabilityOutRef s) (stability s) 0.01;
          (io, iv) = publishValue interf (interferenceOutRef s) (interference s) 0.01
      in s\<lparr> signalRef := sig, stabilityRef := stab, interferenceRef := interf,
            signalOutRef := so, signal := sv, stabilityOutRef := to, stability := tv,
            interferenceOutRef := io, interference := iv \<rparr>)"

definition shockEffect :: "bool \<Rightarrow> bool \<Rightarrow> App \<Rightarrow> App" where
  \<comment> \<open>takes the tracker's published \<open>isLooking\<close> and \<open>faceDetected\<close>\<close>
  "shockEffect isLooking faceDetected s =
     (if phase s \<noteq> TRAPPED then
        s\<lparr> lastLookStateRef := isLooking, lastFaceStateRef := faceDetected \<rparr>
      else
        let s1 = (if lastLookStateRef s \<and> \<not> isLooking then triggerSignalShock Gaze s else s);
            s2 = (if lastFaceStateRef s1 \<and> \<not> faceDetected then triggerSignalShock Face s1 else s1)
        in s2\<lparr> lastLookStateRef := isLooking, lastFaceStateRef := faceDetected \<rparr>)"

subsection \<open>Presence monitor\<close>

definition presenceActivePhase :: "App \<Rightarrow> bool" where
  "presenceActivePhase s \<longleftrightarrow>
     phase s = TRAPPED \<or> phase s = ANXIOUS \<or> phase s = WORK \<or> phase s = BREAKING"

definition presenceMonitorActive :: "bool \<Rightarrow> App \<Rightarrow> bool" where
  "presenceMonitorActive isGazeReady s \<longleftrightarrow>
     isGameplayActive s \<and> presenceActivePhase s \<and> isGazeReady"

definition triggerFailure :: "App \<Rightarrow> App" where
  "triggerFailure s =
     (if failureTriggeredRef s then s
      else
        (clearPresenceTimers (s\<lparr> failureTriggeredRef := True \<rparr>))
          \<lparr> precisionStage := 1, transferCount := 0,
            signalRef := 0, stabilityRef := 0, interferenceRef := 1, gazeDurationRef := 0,
            signal := 0, stability := 0, interference := 1, gazeDurationMs := 0,
            phase := FAILED \<rparr>)"

definition presenceEffect :: "bool \<Rightarrow> bool \<Rightarrow> real \<Rightarrow> App \<Rightarrow> App" where
  \<comment> \<open>takes the tracker's \<open>isReady\<close> and \<open>faceDetected\<close> and the value of \<open>Date.now()\<close>\<close>
  "presenceEffect isGazeReady faceDetected now s =
     (if \<not> presenceMonitorActive isGazeReady s \<or> phase s = FAILED then
        (clearPresenceTimers s)\<lparr> prevFaceDetectedRef := False \<rparr>
      else
        let s1 = s\<lparr> prevFaceDetectedRef := faceDetected \<rparr>
        in if faceDetected then clearPresenceTimers s1
           else if presenceDeadlineRef s1 \<noteq> None then s1
           else s1\<lparr> presenceDeadlineRef := Some (now + PRESENCE_GRACE_MS),
                    presenceWarning := True,
                    presenceRemainingMs := PRESENCE_GRACE_MS,
                    presenceIntervalRef := True \<rparr>)"

definition presenceInterval :: "real \<Rightarrow> App \<Rightarrow> App" where
  \<comment> \<open>the 100 ms interval callback; it fires only while the interval is installed.
      \<open>!presenceDeadlineRef.current\<close> holds for \<open>null\<close> and for the number 0\<close>
  "presenceInterval now s =
     (if \<not> presenceIntervalRef s then s
      else case presenceDeadlineRef s of
        None \<Rightarrow> s
      | Some d \<Rightarrow>
          if d = 0 then s
          else
            let remaining = d - now
            in if remaining \<le> 0 then
                 triggerFailure (clearPresenceTimers (s\<lparr> presenceRemainingMs := 0 \<rparr>))
               else s\<lparr> presenceWarning := True, presenceRemainingMs := remaining \<rparr>)"

subsection \<open>Lock minigame (ANXIOUS)\<close>

definition handlePrecisionHit :: "int \<Rightarrow> App \<Rightarrow> App" where
  "handlePrecisionHit stageValue s =
     (if phase s \<noteq> ANXIOUS then s
      else if stageValue \<ge> 3 then
        s\<lparr> transferCount := 0, firewallProgress := 0, phase := WORK \<rparr>
      else s\<lparr> precisionStage := stageValue + 1 \<rparr>)"

definition handlePrecisionMiss :: "int \<Rightarrow> App \<Rightarrow> App" where
  "handlePrecisionMiss stageValue s =
     (if phase s \<noteq> ANXIOUS then s
      else s\<lparr> precisionStage := max 1 (stageValue - 1) \<rparr>)"

definition clampStage :: "int \<Rightarrow> int" where
  \<comment> \<open>\<open>Math.min(3, Math.max(1, Math.round(value)))\<close>; the stage is an integer, so the rounding
      changes nothing\<close>
  "clampStage v = min 3 (max 1 v)"

definition zoneWidth :: "int \<Rightarrow> real" where
  \<comment> \<open>\<open>STAGE_CONFIG[currentStage].zoneWidth\<close> of the linear lock\<close>
  "zoneWidth st = (if st = 1 then 0.26 else if st = 2 then 0.18 else 0.12)"

definition handleAttempt :: "bool \<Rightarrow> real \<Rightarrow> real \<Rightarrow> App \<Rightarrow> App" where
  \<comment> \<open>the linear lock, rendered only in ANXIOUS: takes its \<open>active\<close> flag, the cursor
      position and the zone start; \<open>onHit\<close> and \<open>onMiss\<close> are the two handlers above\<close>
  "handleAttempt active position zoneStart s =
     (if phase s \<noteq> ANXIOUS \<or> \<not> active then s
      else
        let currentStage = clampStage (precisionStage s);
            hit = (position \<ge> zoneStart \<and> position \<le> zoneStart + zoneWidth currentStage)
        in if hit then handlePrecisionHit currentStage s
           else handlePrecisionMiss currentStage s)"

subsection \<open>Block transfer (WORK) and key mashing (BREAKING) as seen by the orchestrator\<close>

definition handleBlockProgress :: "int \<Rightarrow> App \<Rightarrow> App" where
  "handleBlockProgress count s = s\<lparr> transferCount := count \<rparr>"

definition handleBlockComplete :: "App \<Rightarrow> App" where
  "handleBlockComplete s =
     (if phase s \<noteq> WORK then s else s\<lparr> firewallProgress := 0, phase := BREAKING \<rparr>)"

definition transferEffect :: "App \<Rightarrow> App" where
  "transferEffect s =
     (if phase s \<noteq> WORK then s
      else if transferCount s \<ge> 3 then s\<lparr> firewallProgress := 0, phase := BREAKING \<rparr>
      else s)"

definition handleKeyDown :: "string \<Rightarrow> App \<Rightarrow> App" where
  \<comment> \<open>the listener is installed only during active gameplay in BREAKING\<close>
  "handleKeyDown code s =
     (if \<not> isGameplayActive s \<or> phase s \<noteq> BREAKING then s
      else if code \<noteq> ''Space'' then s
      else s\<lparr> firewallProgress := min 100 (firewallProgress s + FIREWALL_HIT_VALUE) \<rparr>)"

definition firewallDecay :: "App \<Rightarrow> App" where
  \<comment> \<open>the 100 ms interval, installed only during active gameplay in BREAKING\<close>
  "firewallDecay s =
     (if \<not> isGameplayActive s \<or> phase s \<noteq> BREAKING then s
      else s\<lparr> firewallProgress := max 0 (firewallProgress s - FIREWALL_DECAY_PER_SEC * 0.1) \<rparr>)"

definition firewallCompleteEffect :: "App \<Rightarrow> App" where
  "firewallCompleteEffect s =
     (if phase s \<noteq> BREAKING \<or> firewallProgress s < 100 then s
      else s\<lparr> firewallProgress := 100, phase := AWAKENED \<rparr>)"

subsection \<open>Everything that can happen to the orchestrator\<close>

text \<open>
  One event is one callback or one effect body, run to its end (the page is single-threaded),
  reading the record as it is at that moment. An effect of React reads the state of the render
  it belongs to, which can be older than the record; the section on renders and commits
  models that, with the order in which the effects of one commit run.
\<close>

datatype Event =
    MeterFrame real
  | MeterLoopEffect
  | PhaseMeterEffect
  | SignalThresholdEffect
  | StageResetEffect
  | TransferResetEffect
  | FirewallResetEffect
  | AwakenedEffect
  | FaceBoxEffect "FaceBox option"
  | ShockEffect bool bool
  | PresenceEffect bool bool real
  | PresenceInterval real
  | LockAttempt bool real real
  | BlockProgress int
  | BlockComplete
  | TransferEffect
  | KeyDown string
  | FirewallDecay
  | FirewallCompleteEffect
  | AwakeningEnded
  | StartGameplay bool
  | HardReset

fun appStep :: "Event \<Rightarrow> App \<Rightarrow> App" where
  "appStep (MeterFrame now) s = meterFrame now s"
| "appStep MeterLoopEffect s = meterLoopEffect s"
| "appStep PhaseMeterEffect s = phaseMeterEffect s"
| "appStep SignalThresholdEffect s = signalThresholdEffect s"
| "appStep StageResetEffect s = stageResetEffect s"
| "appStep TransferResetEffect s = transferResetEffect s"
| "appStep FirewallResetEffect s = firewallResetEffect s"
| "appStep AwakenedEffect s = awakenedEffect s"
| "appStep (FaceBoxEffect b) s = faceBoxEffect b s"
| "appStep (ShockEffect l f) s = shockEffect l f s"
| "appStep (PresenceEffect r f now) s = presenceEffect r f now s"
| "appStep (PresenceInterval now) s = presenceInterval now s"
| "appStep (LockAttempt a p z) s = handleAttempt a p z s"
| "appStep (BlockProgress n) s = handleBlockProgress n s"
| "appStep BlockComplete s = handleBlockComplete s"
| "appStep TransferEffect s = transferEffect s"
| "appStep (KeyDown c) s = handleKeyDown c s"
| "appStep FirewallDecay s = firewallDecay s"
| "appStep FirewallCompleteEffect s = firewallCompleteEffect s"
| "appStep AwakeningEnded s = handleAwakeningEnded s"
| "appStep (StartGameplay t) s = startGameplay t s"
| "appStep HardReset s = hardReset s"

definition run :: "Event list \<Rightarrow> App \<Rightarrow> App" where
  "run evs s = foldl (\<lambda>s ev. appStep ev s) s evs"

section \<open>The gaze tracker\<close>

text \<open>
  The landmark detector is external: a frame is the list of the landmarks of the first face
  (empty when there is none), each with its normalised x and y. The tracker's refs mirror its
  published state, so one field stands for both.
\<close>

type_synonym Point = "real \<times> real"

record GazeState =
  isLooking :: bool
  faceDetected :: bool
  faceBox :: "FaceBox option"

definition LOOK_CENTER_X_TOL :: real where "LOOK_CENTER_X_TOL = 0.12"
definition LOOK_CENTER_Y_TOL :: real where "LOOK_CENTER_Y_TOL = 0.18"

definition initialGaze :: GazeState where
  "initialGaze = \<lparr> isLooking = False, faceDetected = False, faceBox = None \<rparr>"

definition frameHasFace :: "Point list \<Rightarrow> bool" where
  "frameHasFace landmarks \<longleftrightarrow> landmarks \<noteq> []"

definition frameAnchor :: "Point list \<Rightarrow> Point option" where
  \<comment> \<open>\<open>landmarks[1] ?? landmarks[0]\<close>\<close>
  "frameAnchor landmarks =
     (case landmarks of [] \<Rightarrow> None | p # ps \<Rightarrow> (case ps of [] \<Rightarrow> Some p | q # _ \<Rightarrow> Some q))"

definition frameLooking :: "Point list \<Rightarrow> bool" where
  "frameLooking landmarks =
     (case frameAnchor landmarks of
        None \<Rightarrow> False
      | Some anchor \<Rightarrow>
          let dx = \<bar>fst anchor - 0.5\<bar>; dy = \<bar>snd anchor - 0.5\<bar>
          in dx < LOOK_CENTER_X_TOL \<and> dy < LOOK_CENTER_Y_TOL)"

definition frameFaceBox :: "Point list \<Rightarrow> FaceBox option" where
  "frameFaceBox landmarks =
     (if \<not> frameHasFace landmarks then None
      else
        let minX = foldl (\<lambda>m p. min m (fst p)) 1 landmarks;
            minY = foldl (\<lambda>m p. min m (snd p)) 1 landmarks;
            maxX = foldl (\<lambda>m p. max m (fst p)) 0 landmarks;
            maxY = foldl (\<lambda>m p. max m (snd p)) 0 landmarks
        in Some \<lparr> box_x = max 0 minX, box_y = max 0 minY,
                  box_width = min 1 maxX - max 0 minX,
                  box_height = min 1 maxY - max 0 minY \<rparr>)"

definition setGazeState :: "bool \<Rightarrow> bool \<Rightarrow> GazeState \<Rightarrow> GazeState" where
  \<comment> \<open>each flag is published when it differs from the last one published\<close>
  "setGazeState nextFaceDetected nextIsLooking g =
     (let g1 = (if nextFaceDetected \<noteq> faceDetected g then g\<lparr> faceDetected := nextFaceDetected \<rparr> else g)
      in if nextIsLooking \<noteq> isLooking g1 then g1\<lparr> isLooking := nextIsLooking \<rparr> else g1)"

definition setFaceBoxState :: "FaceBox option \<Rightarrow> GazeState \<Rightarrow> GazeState" where
  "setFaceBoxState next g =
     (case (faceBox g, next) of
        (None, None) \<Rightarrow> g
      | (None, Some n) \<Rightarrow> g\<lparr> faceBox := next \<rparr>
      | (Some p, None) \<Rightarrow> g\<lparr> faceBox := next \<rparr>
      | (Some p, Some n) \<Rightarrow>
          let delta = \<bar>box_x p - box_x n\<bar> + \<bar>box_y p - box_y n\<bar>
                      + \<bar>box_width p - box_width n\<bar> + \<bar>box_height p - box_height n\<bar>
          in if delta > 0.02 then g\<lparr> faceBox := next \<rparr> else g)"

definition gazeLoop :: "Point list \<Rightarrow> GazeState \<Rightarrow> GazeState" where
  \<comment> \<open>one frame of the tracker's loop, after the detector has run\<close>
  "gazeLoop landmarks g =
     (let hasFace = frameHasFace landmarks;
          looking = frameLooking landmarks
      in setFaceBoxState (frameFaceBox landmarks) (setGazeState hasFace (hasFace \<and> looking) g))"

definition offAnchorFrame :: "Point list" where
  \<comment> \<open>a face whose box is centred at (0.65, 0.5) and whose anchor landmark is at (0.65, 0.5)\<close>
  "offAnchorFrame = [(0.64, 0.5), (0.65, 0.5), (0.5, 0.3), (0.8, 0.7)]"

section \<open>The block-transfer task\<close>

text \<open>
  The component's state and refs are one record. The callbacks it invokes on its parent are
  appended to a log. The two animation loops that move the target and the firewall only write
  \<open>targetPosRef\<close> and \<open>firewallYRef\<close>; their sinusoidal paths are not modelled, the
  positions they write are inputs.
\<close>

datatype Callback = OnComplete | OnProgress nat | OnTransferSuccess nat | OnTransferError

record BlockTask =
  completedCount :: nat
  grabbing :: bool
  blockPos :: Point
  targetPosRef :: Point
  completeRef :: bool
  lostTrackingFramesRef :: nat
  firewallCooldownRef :: real
  firewallYRef :: real
  collisionActive :: bool
  emitted :: "Callback list"

definition TOTAL_BLOCKS :: nat where "TOTAL_BLOCKS = 4"
definition ZONE_THRESHOLD :: real where "ZONE_THRESHOLD = 0.22"
definition MAGNET_THRESHOLD :: real where "MAGNET_THRESHOLD = 0.28"
definition LOST_TRACKING_GRACE_FRAMES :: nat where "LOST_TRACKING_GRACE_FRAMES = 12"
definition FIREWALL_X :: real where "FIREWALL_X = 0.5"
definition FIREWALL_HALF_WIDTH :: real where "FIREWALL_HALF_WIDTH = 0.035"
definition FIREWALL_COOLDOWN_MS :: real where "FIREWALL_COOLDOWN_MS = 900"
definition FIREWALL_MIN_Y :: real where "FIREWALL_MIN_Y = 0.2"
definition FIREWALL_MAX_Y :: real where "FIREWALL_MAX_Y = 0.8"
definition FIREWALL_HEIGHT :: real where "FIREWALL_HEIGHT = 0.34"

definition zoneA :: Point where "zoneA = (0.18, 0.5)"
definition baseTarget :: Point where "baseTarget = (0.82, 0.5)"

definition distance :: "Point \<Rightarrow> Point \<Rightarrow> real" where
  \<comment> \<open>\<open>Math.hypot(a.x - b.x, a.y - b.y)\<close>\<close>
  "distance a b = sqrt ((fst a - fst b)\<^sup>2 + (snd a - snd b)\<^sup>2)"

definition closerThan :: "Point \<Rightarrow> Point \<Rightarrow> real \<Rightarrow> bool" where
  \<comment> \<open>\<open>distance(a, b) < threshold\<close>\<close>
  "closerThan a b threshold \<longleftrightarrow> distance a b < threshold"

definition clampTarget :: "Point \<Rightarrow> Point" where
  "clampTarget p = (clamp (fst p) 0.62 0.92, clamp (snd p) 0.22 0.78)"

definition isMovingBlock :: "nat \<Rightarrow> bool" where
  "isMovingBlock count \<longleftrightarrow> count > 0 \<and> count < TOTAL_BLOCKS"

definition initialTask :: BlockTask where
  "initialTask =
     \<lparr> completedCount = 0, grabbing = False, blockPos = zoneA, targetPosRef = baseTarget,
       completeRef = False, lostTrackingFramesRef = 0, firewallCooldownRef = 0,
       firewallYRef = 0.5, collisionActive = False, emitted = [] \<rparr>"

definition firewallActive :: "BlockTask \<Rightarrow> bool" where
  "firewallActive s \<longleftrightarrow> completedCount s \<ge> 2 \<and> completedCount s < TOTAL_BLOCKS"

definition inFirewallBand :: "Point \<Rightarrow> BlockTask \<Rightarrow> bool" where
  \<comment> \<open>takes the clamped hand position\<close>
  "inFirewallBand hand s =
     (let firewallTop = clamp (firewallYRef s - FIREWALL_HEIGHT / 2) 0.04 (0.96 - FIREWALL_HEIGHT);
          firewallBottom = firewallTop + FIREWALL_HEIGHT
      in firewallActive s \<and> \<bar>fst hand - FIREWALL_X\<bar> < FIREWALL_HALF_WIDTH
         \<and> snd hand \<ge> firewallTop \<and> snd hand \<le> firewallBottom)"

definition firewallCollision :: "Point \<Rightarrow> real \<Rightarrow> BlockTask \<Rightarrow> bool" where
  \<comment> \<open>the condition under which the component registers a collision: the hand in the band
      and the cooldown since the last collision over\<close>
  "firewallCollision hand now s \<longleftrightarrow>
     inFirewallBand hand s \<and> now - firewallCooldownRef s > FIREWALL_COOLDOWN_MS"

definition completeCheck :: "BlockTask \<Rightarrow> BlockTask" where
  \<comment> \<open>\<open>if (... >= TOTAL_BLOCKS && !completeRef.current) { completeRef.current = true; onComplete(); }\<close>\<close>
  "completeCheck s =
     (if completedCount s \<ge> TOTAL_BLOCKS \<and> \<not> completeRef s
      then s\<lparr> completeRef := True, emitted := emitted s @ [OnComplete] \<rparr> else s)"

definition handIdle :: "Point option \<Rightarrow> BlockTask \<Rightarrow> BlockTask" where
  \<comment> \<open>the branch \<open>!handCentroid || completedCount >= TOTAL_BLOCKS\<close>\<close>
  "handIdle handCentroid s =
     (if handCentroid = None \<and> grabbing s then
        let s1 = s\<lparr> lostTrackingFramesRef := lostTrackingFramesRef s + 1 \<rparr>
        in if lostTrackingFramesRef s1 < LOST_TRACKING_GRACE_FRAMES then s1
           else completeCheck (s1\<lparr> lostTrackingFramesRef := 0, grabbing := False, blockPos := zoneA \<rparr>)
      else completeCheck s)"

definition handCarry :: "Point \<Rightarrow> real \<Rightarrow> BlockTask \<Rightarrow> BlockTask" where
  \<comment> \<open>the branch with a tracked hand and transfers left. \<open>grabbing\<close> is read from the render
      the effect belongs to, so a grab set in this run is not seen by the \<open>if (grabbing)\<close> below\<close>
  "handCarry handCentroid now s =
     (let s0 = s\<lparr> lostTrackingFramesRef := 0 \<rparr>;
          hand = (clamp (fst handCentroid) 0 1, clamp (snd handCentroid) 0 1);
          inZoneB = closerThan hand (targetPosRef s) ZONE_THRESHOLD;
          nearZoneA = closerThan hand zoneA MAGNET_THRESHOLD;
          s1 = (if \<not> grabbing s \<and> nearZoneA then s0\<lparr> grabbing := True \<rparr> else s0)
      in if grabbing s then
           if firewallCollision hand now s then
             s1\<lparr> firewallCooldownRef := now, grabbing := False, blockPos := zoneA,
                collisionActive := True, emitted := emitted s1 @ [OnTransferError] \<rparr>
           else if inZoneB then
             completeCheck
               (s1\<lparr> grabbing := False, blockPos := zoneA,
                   emitted := emitted s1 @ [OnTransferSuccess (completedCount s + 1)],
                   completedCount := completedCount s + 1 \<rparr>)
           else s1\<lparr> blockPos := hand \<rparr>
         else s1)"

definition handEffect :: "Point option \<Rightarrow> real \<Rightarrow> BlockTask \<Rightarrow> BlockTask" where
  \<comment> \<open>takes the hand centroid and the value of \<open>performance.now()\<close>\<close>
  "handEffect handCentroid now s =
     (case handCentroid of
        None \<Rightarrow> handIdle handCentroid s
      | Some h \<Rightarrow>
          if completedCount s \<ge> TOTAL_BLOCKS then handIdle handCentroid s
          else handCarry h now s)"

definition progressEffect :: "BlockTask \<Rightarrow> BlockTask" where
  "progressEffect s = s\<lparr> emitted := emitted s @ [OnProgress (completedCount s)] \<rparr>"

definition targetResetEffect :: "BlockTask \<Rightarrow> BlockTask" where
  \<comment> \<open>runs when the count has changed\<close>
  "targetResetEffect s = s\<lparr> targetPosRef := baseTarget, firewallYRef := 0.5 \<rparr>"

definition targetTick :: "Point \<Rightarrow> BlockTask \<Rightarrow> BlockTask" where
  \<comment> \<open>takes the point the path has reached\<close>
  "targetTick next s =
     (if \<not> isMovingBlock (completedCount s) then s else s\<lparr> targetPosRef := clampTarget next \<rparr>)"

definition firewallTick :: "real \<Rightarrow> BlockTask \<Rightarrow> BlockTask" where
  \<comment> \<open>takes the height the sine path has reached\<close>
  "firewallTick y s =
     (if \<not> firewallActive s then s\<lparr> firewallYRef := 0.5, collisionActive := False \<rparr>
      else s\<lparr> firewallYRef := clamp y FIREWALL_MIN_Y FIREWALL_MAX_Y \<rparr>)"

definition collisionFlashEnd :: "BlockTask \<Rightarrow> BlockTask" where
  "collisionFlashEnd s = s\<lparr> collisionActive := False \<rparr>"

datatype TaskEvent =
    HandEffect "Point option" real
  | ProgressEffect
  | TargetResetEffect
  | TargetTick Point
  | FirewallTick real
  | CollisionFlashEnd

fun taskStep :: "TaskEvent \<Rightarrow> BlockTask \<Rightarrow> BlockTask" where
  "taskStep (HandEffect h now) s = handEffect h now s"
| "taskStep ProgressEffect s = progressEffect s"
| "taskStep TargetResetEffect s = targetResetEffect s"
| "taskStep (TargetTick p) s = targetTick p s"
| "taskStep (FirewallTick y) s = firewallTick y s"
| "taskStep CollisionFlashEnd s = collisionFlashEnd s"

definition taskRun :: "TaskEvent list \<Rightarrow> BlockTask \<Rightarrow> BlockTask" where
  "taskRun evs s = foldl (\<lambda>s ev. taskStep ev s) s evs"

definition completions :: "BlockTask \<Rightarrow> nat" where
  \<comment> \<open>how often the completion callback has been invoked\<close>
  "completions s = length (filter (\<lambda>c. c = OnComplete) (emitted s))"

definition oneTransfer :: "TaskEvent list" where
  \<comment> \<open>the hand at the source zone (grab), then at the resting target (drop), and the
      effects of the changed count\<close>
  "oneTransfer = [HandEffect (Some zoneA) 2000, HandEffect (Some baseTarget) 2100,
                  ProgressEffect, TargetResetEffect]"

definition carryingTask :: BlockTask where
  \<comment> \<open>two transfers done, the block picked up again\<close>
  "carryingTask = taskRun (oneTransfer @ oneTransfer @ [HandEffect (Some zoneA) 3000]) initialTask"

definition fullRun :: "TaskEvent list" where
  \<comment> \<open>four transfers, then the hand lost and back at the source zone\<close>
  "fullRun = oneTransfer @ oneTransfer @ oneTransfer @ oneTransfer
             @ [HandEffect None 5000, HandEffect (Some zoneA) 5100]"

definition taskInv :: "BlockTask \<Rightarrow> bool" where
  \<comment> \<open>the completion latch is set exactly when all transfers are done, and the completion
      callback has been invoked once if it is set and never if it is not\<close>
  "taskInv s \<longleftrightarrow>
     (completeRef s \<longleftrightarrow> TOTAL_BLOCKS \<le> completedCount s)
     \<and> (completeRef s \<longrightarrow> completions s = 1)
     \<and> (\<not> completeRef s \<longrightarrow> completions s = 0)"

section \<open>Renders and commits of the orchestrator\<close>

text \<open>
  React renders the component with the state of that moment, and then runs, in the order of
  the source, the effects whose dependencies differ from those of the previous render (all of
  them after the first render). An effect and a callback read the state of the render they
  belong to and read refs from the record; a setter changes the state of the next render, the
  last call winning. So the state fields of the record hold the state of the next render, and
  the last render is kept beside the record. The tracker hook's published values are state
  of the render too. Dependencies that are callbacks change only with the audio flags, which
  are left out.
\<close>

type_synonym Rendered = "App \<times> GazeState \<times> bool"
  \<comment> \<open>the record as it was at the render (only its state fields are read), the tracker's
      published state, and the tracker's \<open>isReady\<close>\<close>

record World =
  live :: App
  tracker :: GazeState
  trackerReady :: bool
  shown :: "Rendered option"

definition stateOf ::
  "App \<Rightarrow> (AppState \<times> bool \<times> Phase \<times> bool \<times> bool) \<times> (real \<times> real \<times> real \<times> real)
         \<times> (int \<times> int \<times> real \<times> real)" where
  \<comment> \<open>the \<open>useState\<close> values of the record\<close>
  "stateOf s =
     ((appState s, awakeningActive s, phase s, presenceWarning s, trustIssues s),
      (signal s, stability s, interference s, gazeDurationMs s),
      (precisionStage s, transferCount s, firewallProgress s, presenceRemainingMs s))"

definition settled :: "World \<Rightarrow> bool" where
  \<comment> \<open>no state has changed since the last render, so React does not render again\<close>
  "settled w =
     (case shown w of
        None \<Rightarrow> False
      | Some (r, g, rdy) \<Rightarrow> stateOf r = stateOf (live w) \<and> g = tracker w \<and> rdy = trackerReady w)"

definition depsChanged :: "(Rendered \<Rightarrow> 'd) \<Rightarrow> Rendered option \<Rightarrow> Rendered \<Rightarrow> bool" where
  "depsChanged deps prev cur = (case prev of None \<Rightarrow> True | Some p \<Rightarrow> deps p \<noteq> deps cur)"

definition whenChanged ::
  "(Rendered \<Rightarrow> 'd) \<Rightarrow> Rendered option \<Rightarrow> Rendered \<Rightarrow> (App \<Rightarrow> App) \<Rightarrow> App \<Rightarrow> App" where
  "whenChanged deps prev cur effect s = (if depsChanged deps prev cur then effect s else s)"

subsection \<open>Dependency arrays\<close>

fun faceBoxDeps :: "Rendered \<Rightarrow> FaceBox option" where
  "faceBoxDeps (r, g, rdy) = faceBox g"

fun presenceDeps :: "Rendered \<Rightarrow> bool \<times> Phase \<times> bool" where
  "presenceDeps (r, g, rdy) = (faceDetected g, phase r, presenceMonitorActive rdy r)"

fun presenceWarnDeps :: "Rendered \<Rightarrow> Phase \<times> bool \<times> bool" where
  "presenceWarnDeps (r, g, rdy) = (phase r, presenceMonitorActive rdy r, presenceWarning r)"

fun phaseDeps :: "Rendered \<Rightarrow> Phase" where
  "phaseDeps (r, g, rdy) = phase r"

fun meterLoopDeps :: "Rendered \<Rightarrow> Phase \<times> bool \<times> bool" where
  "meterLoopDeps (r, g, rdy) = (phase r, isGameplayActive r, trustIssues r)"

fun thresholdDeps :: "Rendered \<Rightarrow> Phase \<times> real \<times> bool" where
  "thresholdDeps (r, g, rdy) = (phase r, signal r, isGameplayActive r)"

fun shockDeps :: "Rendered \<Rightarrow> bool \<times> bool \<times> Phase" where
  "shockDeps (r, g, rdy) = (faceDetected g, isLooking g, phase r)"

fun completeDeps :: "Rendered \<Rightarrow> real \<times> Phase" where
  "completeDeps (r, g, rdy) = (firewallProgress r, phase r)"

fun transferDeps :: "Rendered \<Rightarrow> Phase \<times> int" where
  "transferDeps (r, g, rdy) = (phase r, transferCount r)"

fun awakenedDeps :: "Rendered \<Rightarrow> bool \<times> Phase" where
  "awakenedDeps (r, g, rdy) = (awakeningActive r, phase r)"

subsection \<open>Effects, reading the state of their render\<close>

definition presenceEffectAt :: "App \<Rightarrow> bool \<Rightarrow> bool \<Rightarrow> real \<Rightarrow> App \<Rightarrow> App" where
  "presenceEffectAt r isGazeReady detected now s =
     (if \<not> presenceMonitorActive isGazeReady r \<or> phase r = FAILED then
        (clearPresenceTimers s)\<lparr> prevFaceDetectedRef := False \<rparr>
      else
        let s1 = s\<lparr> prevFaceDetectedRef := detected \<rparr>
        in if detected then clearPresenceTimers s1
           else if presenceDeadlineRef s1 \<noteq> None then s1
           else s1\<lparr> presenceDeadlineRef := Some (now + PRESENCE_GRACE_MS),
                    presenceWarning := True,
                    presenceRemainingMs := PRESENCE_GRACE_MS,
                    presenceIntervalRef := True \<rparr>)"

definition presenceWarnEffectAt :: "App \<Rightarrow> bool \<Rightarrow> App \<Rightarrow> App" where
  \<comment> \<open>the spoken warning, once per countdown\<close>
  "presenceWarnEffectAt r isGazeReady s =
     (if \<not> presenceWarning r \<or> \<not> presenceMonitorActive isGazeReady r \<or> phase r = FAILED then s
      else if presenceWarnedRef s then s
      else s\<lparr> presenceWarnedRef := True \<rparr>)"

definition phaseMeterEffectAt :: "App \<Rightarrow> App \<Rightarrow> App" where
  "phaseMeterEffectAt r s =
     (if phase r = TRAPPED then
        s\<lparr> signalRef := 0, stabilityRef := 0, interferenceRef := 1, gazeDurationRef := 0,
           signal := 0, stability := 0, interference := 1, gazeDurationMs := 0 \<rparr>
      else if phase r = ANXIOUS \<or> phase r = WORK \<or> phase r = BREAKING \<or> phase r = AWAKENED then
        s\<lparr> signalRef := 100, stabilityRef := 1, interferenceRef := 0, gazeDurationRef := 0,
           signal := 100, stability := 1, interference := 0, gazeDurationMs := 0 \<rparr>
      else s)"

definition meterLoopEffectAt :: "App \<Rightarrow> App \<Rightarrow> App" where
  "meterLoopEffectAt r s =
     (if \<not> isGameplayActive r \<or> phase r \<noteq> TRAPPED then s else s\<lparr> lastTickRef := None \<rparr>)"

definition signalThresholdEffectAt :: "App \<Rightarrow> App \<Rightarrow> App" where
  "signalThresholdEffectAt r s =
     (if \<not> isGameplayActive r \<or> phase r \<noteq> TRAPPED then s
      else if signal r \<ge> 99 then
        s\<lparr> signalRef := 100, signalOutRef := 100, signal := 100, phase := ANXIOUS \<rparr>
      else s)"

definition shockEffectAt :: "App \<Rightarrow> bool \<Rightarrow> bool \<Rightarrow> App \<Rightarrow> App" where
  "shockEffectAt r looking detected s =
     (if phase r \<noteq> TRAPPED then
        s\<lparr> lastLookStateRef := looking, lastFaceStateRef := detected \<rparr>
      else
        let s1 = (if lastLookStateRef s \<and> \<not> looking then triggerSignalShock Gaze s else s);
            s2 = (if lastFaceStateRef s1 \<and> \<not> detected then triggerSignalShock Face s1 else s1)
        in s2\<lparr> lastLookStateRef := looking, lastFaceStateRef := detected \<rparr>)"

definition transferResetEffectAt :: "App \<Rightarrow> App \<Rightarrow> App" where
  "transferResetEffectAt r s = (if phase r \<noteq> BREAKING then s\<lparr> transferCount := 0 \<rparr> else s)"

definition firewallResetEffectAt :: "App \<Rightarrow> App \<Rightarrow> App" where
  "firewallResetEffectAt r s = (if phase r \<noteq> BREAKING then s\<lparr> firewallProgress := 0 \<rparr> else s)"

definition firewallCompleteEffectAt :: "App \<Rightarrow> App \<Rightarrow> App" where
  "firewallCompleteEffectAt r s =
     (if phase r \<noteq> BREAKING \<or> firewallProgress r < 100 then s
      else s\<lparr> firewallProgress := 100, phase := AWAKENED \<rparr>)"

definition transferEffectAt :: "App \<Rightarrow> App \<Rightarrow> App" where
  "transferEffectAt r s =
     (if phase r \<noteq> WORK then s
      else if transferCount r \<ge> 3 then s\<lparr> firewallProgress := 0, phase := BREAKING \<rparr>
      else s)"

definition awakenedEffectAt :: "App \<Rightarrow> App \<Rightarrow> App" where
  "awakenedEffectAt r s =
     (if phase r \<noteq> AWAKENED then s
      else if \<not> awakeningActive r then s\<lparr> awakeningActive := True \<rparr> else s)"

subsection \<open>One commit\<close>

fun commit :: "Rendered option \<Rightarrow> Rendered \<Rightarrow> real \<Rightarrow> App \<Rightarrow> App" where
  \<comment> \<open>takes the previous render, this render and the value of \<open>Date.now()\<close>; the effects in
      the order of the source\<close>
  "commit prev (r, g, rdy) now s =
     (let cur = (r, g, rdy);
          s1 = whenChanged faceBoxDeps prev cur (faceBoxEffect (faceBox g)) s;
          s2 = whenChanged presenceDeps prev cur (presenceEffectAt r rdy (faceDetected g) now) s1;
          s3 = whenChanged presenceWarnDeps prev cur (presenceWarnEffectAt r rdy) s2;
          s4 = whenChanged phaseDeps prev cur (phaseMeterEffectAt r) s3;
          s5 = whenChanged meterLoopDeps prev cur (meterLoopEffectAt r) s4;
          s6 = whenChanged thresholdDeps prev cur (signalThresholdEffectAt r) s5;
          s7 = whenChanged phaseDeps prev cur stageResetEffect s6;
          s8 = whenChanged shockDeps prev cur (shockEffectAt r (isLooking g) (faceDetected g)) s7;
          s9 = whenChanged phaseDeps prev cur (transferResetEffectAt r) s8;
          s10 = whenChanged phaseDeps prev cur (firewallResetEffectAt r) s9;
          s11 = whenChanged completeDeps prev cur (firewallCompleteEffectAt r) s10;
          s12 = whenChanged transferDeps prev cur (transferEffectAt r) s11
      in whenChanged awakenedDeps prev cur (awakenedEffectAt r) s12)"

definition rerender :: "real \<Rightarrow> World \<Rightarrow> World" where
  "rerender now w =
     (if settled w then w
      else w\<lparr> live := commit (shown w) (live w, tracker w, trackerReady w) now (live w),
              shown := Some (live w, tracker w, trackerReady w) \<rparr>)"

fun settle :: "nat \<Rightarrow> real \<Rightarrow> World \<Rightarrow> World option" where
  \<comment> \<open>renders until nothing changes; \<open>None\<close> when the given number of renders is not enough\<close>
  "settle 0 now w = (if settled w then Some w else None)"
| "settle (Suc n) now w = (if settled w then Some w else settle n now (rerender now w))"

subsection \<open>Callbacks, bound to the last render\<close>

definition frameAt :: "Rendered option \<Rightarrow> real \<Rightarrow> App \<Rightarrow> App" where
  \<comment> \<open>the frame loop exists while the last render was active gameplay in TRAPPED; its gain
      multiplier is that of the render\<close>
  "frameAt sh now s =
     (case sh of
        None \<Rightarrow> s
      | Some (r, g, rdy) \<Rightarrow>
          if \<not> isGameplayActive r \<or> phase r \<noteq> TRAPPED then s
          else (tick now (s\<lparr> trustIssues := trustIssues r \<rparr>))\<lparr> trustIssues := trustIssues s \<rparr>)"

definition keyAt :: "Rendered option \<Rightarrow> string \<Rightarrow> App \<Rightarrow> App" where
  "keyAt sh code s =
     (case sh of
        None \<Rightarrow> s
      | Some (r, g, rdy) \<Rightarrow>
          if \<not> isGameplayActive r \<or> phase r \<noteq> BREAKING then s
          else if code \<noteq> ''Space'' then s
          else s\<lparr> firewallProgress := min 100 (firewallProgress s + FIREWALL_HIT_VALUE) \<rparr>)"

definition decayAt :: "Rendered option \<Rightarrow> App \<Rightarrow> App" where
  "decayAt sh s =
     (case sh of
        None \<Rightarrow> s
      | Some (r, g, rdy) \<Rightarrow>
          if \<not> isGameplayActive r \<or> phase r \<noteq> BREAKING then s
          else s\<lparr> firewallProgress := max 0 (firewallProgress s - FIREWALL_DECAY_PER_SEC * 0.1) \<rparr>)"

definition attemptAt :: "Rendered option \<Rightarrow> real \<Rightarrow> real \<Rightarrow> App \<Rightarrow> App" where
  \<comment> \<open>the lock is rendered in ANXIOUS, active while the tracker reports looking, with the
      stage of the render\<close>
  "attemptAt sh position zoneStart s =
     (case sh of
        None \<Rightarrow> s
      | Some (r, g, rdy) \<Rightarrow>
          if phase r \<noteq> ANXIOUS \<or> \<not> isLooking g then s
          else
            let currentStage = clampStage (precisionStage r);
                hit = (position \<ge> zoneStart \<and> position \<le> zoneStart + zoneWidth currentStage)
            in if hit then
                 (if currentStage \<ge> 3 then
                    s\<lparr> transferCount := 0, firewallProgress := 0, phase := WORK \<rparr>
                  else s\<lparr> precisionStage := currentStage + 1 \<rparr>)
               else s\<lparr> precisionStage := max 1 (currentStage - 1) \<rparr>)"

definition progressAt :: "Rendered option \<Rightarrow> int \<Rightarrow> App \<Rightarrow> App" where
  \<comment> \<open>the block task is rendered in WORK\<close>
  "progressAt sh count s =
     (case sh of
        None \<Rightarrow> s
      | Some (r, g, rdy) \<Rightarrow> if phase r \<noteq> WORK then s else s\<lparr> transferCount := count \<rparr>)"

definition completeAt :: "Rendered option \<Rightarrow> App \<Rightarrow> App" where
  "completeAt sh s =
     (case sh of
        None \<Rightarrow> s
      | Some (r, g, rdy) \<Rightarrow>
          if phase r \<noteq> WORK then s else s\<lparr> firewallProgress := 0, phase := BREAKING \<rparr>)"

datatype WorldEvent =
    Render real
  | Frame real
  | Tracker GazeState bool
  | PresenceTick real
  | Key string
  | Decay
  | Attempt real real
  | Progress int
  | Complete
  | VideoEnded
  | Start bool
  | Reset

fun worldStep :: "WorldEvent \<Rightarrow> World \<Rightarrow> World" where
  "worldStep (Render now) w = rerender now w"
| "worldStep (Frame now) w = w\<lparr> live := frameAt (shown w) now (live w) \<rparr>"
| "worldStep (Tracker g rdy) w = w\<lparr> tracker := g, trackerReady := rdy \<rparr>"
| "worldStep (PresenceTick now) w = w\<lparr> live := presenceInterval now (live w) \<rparr>"
| "worldStep (Key code) w = w\<lparr> live := keyAt (shown w) code (live w) \<rparr>"
| "worldStep Decay w = w\<lparr> live := decayAt (shown w) (live w) \<rparr>"
| "worldStep (Attempt p z) w = w\<lparr> live := attemptAt (shown w) p z (live w) \<rparr>"
| "worldStep (Progress n) w = w\<lparr> live := progressAt (shown w) n (live w) \<rparr>"
| "worldStep Complete w = w\<lparr> live := completeAt (shown w) (live w) \<rparr>"
| "worldStep VideoEnded w = w\<lparr> live := handleAwakeningEnded (live w) \<rparr>"
| "worldStep (Start trust) w = w\<lparr> live := startGameplay trust (live w) \<rparr>"
| "worldStep Reset w = w\<lparr> live := hardReset (live w) \<rparr>"

definition worldRun :: "WorldEvent list \<Rightarrow> World \<Rightarrow> World" where
  "worldRun evs w = foldl (\<lambda>w ev. worldStep ev w) w evs"

subsection \<open>Key mashing\<close>

definition press :: "real \<Rightarrow> World \<Rightarrow> World option" where
  \<comment> \<open>one press of the space bar, and the renders that follow it\<close>
  "press now w = settle 3 now (worldStep (Key ''Space'') w)"

fun mash :: "nat \<Rightarrow> real \<Rightarrow> World \<Rightarrow> World option" where
  "mash 0 now w = Some w"
| "mash (Suc n) now w = (case press now w of None \<Rightarrow> None | Some w' \<Rightarrow> mash n now w')"

definition outcome :: "World \<Rightarrow> Phase \<times> real" where
  "outcome w = (phase (live w), firewallProgress (live w))"

definition mashing :: "World \<Rightarrow> bool" where
  \<comment> \<open>a settled render of active gameplay in BREAKING, the progress below 100\<close>
  "mashing w \<longleftrightarrow>
     settled w \<and> isGameplayActive (live w) \<and> phase (live w) = BREAKING
     \<and> 0 \<le> firewallProgress (live w) \<and> firewallProgress (live w) < 100"

definition released :: "World \<Rightarrow> bool" where
  \<comment> \<open>settled in AWAKENED with the awakening running and the progress reset\<close>
  "released w \<longleftrightarrow>
     settled w \<and> \<not> isGameplayActive (live w) \<and> phase (live w) = AWAKENED
     \<and> firewallProgress (live w) = 0"

subsection \<open>A run up to BREAKING\<close>

definition bootWorld :: World where
  "bootWorld = \<lparr> live = initialApp, tracker = initialGaze, trackerReady = False, shown = None \<rparr>"

definition centredFrame :: "Point list" where
  \<comment> \<open>a face with its anchor at the frame centre and its box centred there\<close>
  "centredFrame = [(0.5, 0.5), (0.5, 0.5), (0.3, 0.25), (0.7, 0.75)]"

definition thresholdWorld :: World where
  \<comment> \<open>mounted, gameplay started, the tracker ready with a centred face; the first frame, and a
      frame 9.91 s later that publishes the signal 99.1; not yet rendered\<close>
  "thresholdWorld =
     worldRun [Render 0, Start False, Render 10, Tracker (gazeLoop centredFrame initialGaze) True,
               Render 20, Render 30, Frame 100, Frame 10010] bootWorld"

definition edgeWorld :: World where
  \<comment> \<open>the same, the tracker also reporting that the face no longer looks\<close>
  "edgeWorld =
     worldStep (Tracker (gazeLoop offAnchorFrame (tracker thresholdWorld)) True) thresholdWorld"

definition anxiousWorld :: World where
  "anxiousWorld = worldRun [Render 10020, Render 10030, Render 10040] thresholdWorld"

definition workWorld :: World where
  \<comment> \<open>three hits of the lock, each rendered\<close>
  "workWorld =
     worldRun [Attempt 0.5 0.45, Render 11000, Attempt 0.5 0.45, Render 12000,
               Attempt 0.5 0.45, Render 13000, Render 13010] anxiousWorld"

definition breakingWorld :: World where
  \<comment> \<open>the block task reports three transfers\<close>
  "breakingWorld = worldRun [Progress 3, Render 20000, Render 20010, Render 20020] workWorld"

section \<open>Invariants and sample runs\<close>

subsection \<open>Bounds of the meters\<close>

definition metersInBounds :: "App \<Rightarrow> bool" where
  \<comment> \<open>the declared ranges, for the engine's accumulators and for the published values\<close>
  "metersInBounds s \<longleftrightarrow>
     0 \<le> signalRef s \<and> signalRef s \<le> 100 \<and>
     0 \<le> stabilityRef s \<and> stabilityRef s \<le> 1 \<and>
     0 \<le> interferenceRef s \<and> interferenceRef s \<le> 1 \<and>
     0 \<le> gazeDurationRef s \<and> gazeDurationRef s \<le> 20000 \<and>
     0 \<le> signal s \<and> signal s \<le> 100 \<and>
     0 \<le> stability s \<and> stability s \<le> 1 \<and>
     0 \<le> interference s \<and> interference s \<le> 1 \<and>
     0 \<le> gazeDurationMs s \<and> gazeDurationMs s \<le> 20000"

definition meterValues :: "App \<Rightarrow> (real \<times> real \<times> real \<times> real) \<times> (real \<times> real \<times> real \<times> real)" where
  \<comment> \<open>the four accumulators and the four published values\<close>
  "meterValues s =
     ((signalRef s, stabilityRef s, interferenceRef s, gazeDurationRef s),
      (signal s, stability s, interference s, gazeDurationMs s))"

subsection \<open>Sample states\<close>

definition centredBox :: FaceBox where
  "centredBox = \<lparr> box_x = 0.3, box_y = 0.25, box_width = 0.4, box_height = 0.5 \<rparr>"

definition trappedRun :: App where
  \<comment> \<open>a fresh run whose frame loop has seen its first frame at time 0, with a centred face\<close>
  "trappedRun = tick 0 (faceBoxEffect (Some centredBox) (startGameplay False initialApp))"

definition laggingRun :: App where
  \<comment> \<open>two more frames with the face centred: one after 9.89 s, one 12 ms later\<close>
  "laggingRun = tick 9902 (tick 9890 trappedRun)"

definition publishedRun :: App where
  \<comment> \<open>the same, the last frame 20 ms later\<close>
  "publishedRun = tick 9910 (tick 9890 trappedRun)"

definition noFaceRun :: App where
  \<comment> \<open>five seconds of centred face, then the tracker reports no face box\<close>
  "noFaceRun = faceBoxEffect None (tick 5000 trappedRun)"

definition lockMiss :: "App \<Rightarrow> App" where
  \<comment> \<open>a miss as the lock reports it: \<open>onMiss(currentStage)\<close>\<close>
  "lockMiss s = handlePrecisionMiss (clampStage (precisionStage s)) s"

definition lockHit :: "App \<Rightarrow> App" where
  \<comment> \<open>a hit as the lock reports it: \<open>onHit(currentStage)\<close>\<close>
  "lockHit s = handlePrecisionHit (clampStage (precisionStage s)) s"

definition anxiousRun :: App where
  \<comment> \<open>the run after the threshold effect and the effects of the phase change\<close>
  "anxiousRun = stageResetEffect (phaseMeterEffect (signalThresholdEffect publishedRun))"

definition lookingRun :: App where
  \<comment> \<open>five seconds of centred face, the tracker publishing a detected face that looks\<close>
  "lookingRun = shockEffect True True (tick 5000 trappedRun)"

subsection \<open>A running countdown\<close>


definition offAnchorRun :: App where
  \<comment> \<open>the fresh run, holding the face box the tracker publishes for the off-anchor frame\<close>
  "offAnchorRun = faceBoxEffect (faceBox (gazeLoop offAnchorFrame initialGaze)) trappedRun"

section \<open>Properties\<close>

subsection \<open>The meter engine\<close>

lemmas tick_defs =
  tick_def tickDt_def tickGrowDecay_def tickNoFace_def tickInterference_def tickPublish_def
  publishValue_def inCenter_def hasFace_def trustGainMultiplier_def clamp_def

lemmas run_defs =
  initialApp_def clearPresenceTimers_def resetTrappedState_def resetRunState_def
  startGameplay_def faceBoxEffect_def isGameplayActive_def

lemmas sample_defs = trappedRun_def tick_defs run_defs app_consts centredBox_def

lemmas step_defs =
  meterFrame_def meterLoopEffect_def phaseMeterEffect_def signalThresholdEffect_def
  stageResetEffect_def transferResetEffect_def firewallResetEffect_def awakenedEffect_def
  faceBoxEffect_def shockEffect_def triggerSignalShock_def presenceEffect_def
  presenceInterval_def triggerFailure_def clearPresenceTimers_def handleAttempt_def
  handlePrecisionHit_def handlePrecisionMiss_def handleBlockProgress_def
  handleBlockComplete_def transferEffect_def handleKeyDown_def firewallDecay_def
  firewallCompleteEffect_def handleAwakeningEnded_def startGameplay_def hardReset_def
  resetRunState_def resetTrappedState_def

lemma clamp_bounds: "lo \<le> hi \<Longrightarrow> lo \<le> clamp v lo hi \<and> clamp v lo hi \<le> hi"
  by (simp add: clamp_def)

lemma tickPublish_refs [simp]:
  "signalRef (tickPublish s) = signalRef s"
  "stabilityRef (tickPublish s) = stabilityRef s"
  "interferenceRef (tickPublish s) = interferenceRef s"
  "gazeDurationRef (tickPublish s) = gazeDurationRef s"
  by (simp_all add: tickPublish_def Let_def split: prod.splits)

lemma tickInterference_refs [simp]:
  "signalRef (tickInterference s) = signalRef s"
  "stabilityRef (tickInterference s) = stabilityRef s"
  "gazeDurationRef (tickInterference s) = gazeDurationRef s"
  "interferenceRef (tickInterference s) = clamp (1 - stabilityRef s) 0 1"
  by (simp_all add: tickInterference_def)

lemma tickNoFace_stability_bounds:
  "0 \<le> stabilityRef s \<and> stabilityRef s \<le> 1 \<Longrightarrow>
   0 \<le> stabilityRef (tickNoFace dt s) \<and> stabilityRef (tickNoFace dt s) \<le> 1"
  by (simp add: tickNoFace_def clamp_def)

lemma tickNoFace_signal_bounds:
  "0 \<le> signalRef s \<and> signalRef s \<le> 100 \<Longrightarrow>
   0 \<le> signalRef (tickNoFace dt s) \<and> signalRef (tickNoFace dt s) \<le> 100"
  by (simp add: tickNoFace_def clamp_def)

lemma tickNoFace_gaze [simp]: "gazeDurationRef (tickNoFace dt s) = gazeDurationRef s"
  by (simp add: tickNoFace_def)

lemma tickGrowDecay_stability_bounds:
  "0 \<le> stabilityRef (tickGrowDecay dt s) \<and> stabilityRef (tickGrowDecay dt s) \<le> 1"
  by (simp add: tickGrowDecay_def clamp_def)

lemma tickGrowDecay_signal_bounds:
  "0 \<le> signalRef (tickGrowDecay dt s) \<and> signalRef (tickGrowDecay dt s) \<le> 100"
  by (simp add: tickGrowDecay_def clamp_def)

lemma tickGrowDecay_gaze_bounds:
  "0 \<le> dt \<Longrightarrow> 0 \<le> gazeDurationRef s \<Longrightarrow>
   0 \<le> gazeDurationRef (tickGrowDecay dt s) \<and> gazeDurationRef (tickGrowDecay dt s) \<le> 20000"
  by (simp add: tickGrowDecay_def)

lemma tick_stability_bounds: "0 \<le> stabilityRef (tick now s) \<and> stabilityRef (tick now s) \<le> 1"
  unfolding tick_def Let_def
  by (simp add: tickNoFace_stability_bounds tickGrowDecay_stability_bounds)

lemma tick_signal_bounds: "0 \<le> signalRef (tick now s) \<and> signalRef (tick now s) \<le> 100"
  unfolding tick_def Let_def
  by (simp add: tickNoFace_signal_bounds tickGrowDecay_signal_bounds)

lemma tick_interference: "interferenceRef (tick now s) = clamp (1 - stabilityRef (tick now s)) 0 1"
  unfolding tick_def Let_def by simp

text \<open>
  C2. Immediately after every continuous tick of the meter engine the interference meter is
  1 minus the stability meter, and this value lies in [0,1] (the clamp changes nothing).
\<close>

theorem tick_interference_complement:
  "interferenceRef (tick now s) = 1 - stabilityRef (tick now s)
   \<and> interferenceRef (tick now s) = clamp (1 - stabilityRef (tick now s)) 0 1
   \<and> 0 \<le> interferenceRef (tick now s) \<and> interferenceRef (tick now s) \<le> 1"
  using tick_stability_bounds [of now s] tick_interference [of now s]
  by (simp add: clamp_def)

theorem tick_interference_complement_witness:
  "interferenceRef (tick 16 trappedRun) = 1 - stabilityRef (tick 16 trappedRun)"
  using tick_interference_complement [of 16 trappedRun] by blast

lemma tick_gaze_bounds:
  "0 \<le> tickDt now s \<Longrightarrow> 0 \<le> gazeDurationRef s \<Longrightarrow>
   0 \<le> gazeDurationRef (tick now s) \<and> gazeDurationRef (tick now s) \<le> 20000"
  unfolding tick_def Let_def
  by (simp add: tickGrowDecay_gaze_bounds)

lemma tickPublish_published:
  "signal (tickPublish s) = signal s \<or> signal (tickPublish s) = signalRef s"
  "stability (tickPublish s) = stability s \<or> stability (tickPublish s) = stabilityRef s"
  "interference (tickPublish s) = interference s \<or> interference (tickPublish s) = interferenceRef s"
  "gazeDurationMs (tickPublish s) = gazeDurationMs s \<or> gazeDurationMs (tickPublish s) = gazeDurationRef s"
  by (simp_all add: tickPublish_def publishValue_def)

lemma tick_inner_published [simp]:
  "signal (tickInterference s) = signal s"
  "stability (tickInterference s) = stability s"
  "interference (tickInterference s) = interference s"
  "gazeDurationMs (tickInterference s) = gazeDurationMs s"
  "signal (tickNoFace dt s) = signal s"
  "stability (tickNoFace dt s) = stability s"
  "interference (tickNoFace dt s) = interference s"
  "gazeDurationMs (tickNoFace dt s) = gazeDurationMs s"
  "signal (tickGrowDecay dt s) = signal s"
  "stability (tickGrowDecay dt s) = stability s"
  "interference (tickGrowDecay dt s) = interference s"
  "gazeDurationMs (tickGrowDecay dt s) = gazeDurationMs s"
  by (simp_all add: tickInterference_def tickNoFace_def tickGrowDecay_def)

lemma tick_published:
  "signal (tick now s) = signal s \<or> signal (tick now s) = signalRef (tick now s)"
  "stability (tick now s) = stability s \<or> stability (tick now s) = stabilityRef (tick now s)"
  "interference (tick now s) = interference s \<or> interference (tick now s) = interferenceRef (tick now s)"
  "gazeDurationMs (tick now s) = gazeDurationMs s \<or> gazeDurationMs (tick now s) = gazeDurationRef (tick now s)"
proof -
  define u where "u = tickInterference (tickNoFace (tickDt now s)
    (tickGrowDecay (tickDt now s) (s\<lparr> lastTickRef := Some now \<rparr>)))"
  have t: "tick now s = tickPublish u"
    by (simp add: tick_def u_def Let_def)
  have p: "signal u = signal s" "stability u = stability s" "interference u = interference s"
    "gazeDurationMs u = gazeDurationMs s"
    by (simp_all add: u_def)
  show "signal (tick now s) = signal s \<or> signal (tick now s) = signalRef (tick now s)"
    using tickPublish_published(1) [of u] by (simp add: t p)
  show "stability (tick now s) = stability s \<or> stability (tick now s) = stabilityRef (tick now s)"
    using tickPublish_published(2) [of u] by (simp add: t p)
  show "interference (tick now s) = interference s \<or> interference (tick now s) = interferenceRef (tick now s)"
    using tickPublish_published(3) [of u] by (simp add: t p)
  show "gazeDurationMs (tick now s) = gazeDurationMs s \<or> gazeDurationMs (tick now s) = gazeDurationRef (tick now s)"
    using tickPublish_published(4) [of u] by (simp add: t p)
qed

lemma tick_keeps_bounds:
  assumes "0 \<le> tickDt now s" and "metersInBounds s"
  shows "metersInBounds (tick now s)"
proof -
  have g: "0 \<le> gazeDurationRef s"
    using assms(2) by (simp add: metersInBounds_def)
  note r = tick_signal_bounds [of now s] tick_stability_bounds [of now s]
    tick_interference [of now s] tick_gaze_bounds [OF assms(1) g]
  have i: "0 \<le> interferenceRef (tick now s) \<and> interferenceRef (tick now s) \<le> 1"
    using r(3) by (simp add: clamp_def)
  have p1: "0 \<le> signal (tick now s) \<and> signal (tick now s) \<le> 100"
    using tick_published(1) [of now s] r(1) assms(2) by (auto simp: metersInBounds_def)
  have p2: "0 \<le> stability (tick now s) \<and> stability (tick now s) \<le> 1"
    using tick_published(2) [of now s] r(2) assms(2) by (auto simp: metersInBounds_def)
  have p3: "0 \<le> interference (tick now s) \<and> interference (tick now s) \<le> 1"
    using tick_published(3) [of now s] i assms(2) by (auto simp: metersInBounds_def)
  have p4: "0 \<le> gazeDurationMs (tick now s) \<and> gazeDurationMs (tick now s) \<le> 20000"
    using tick_published(4) [of now s] r(4) assms(2) by (auto simp: metersInBounds_def)
  show ?thesis
    unfolding metersInBounds_def using r(1,2,4) i p1 p2 p3 p4 by blast
qed

text \<open>
  C3. For every frame with a delta-time that is not negative and every face box (or none), the
  meters stay within their declared bounds across a meter-engine update: signal in [0,100],
  stability and interference in [0,1], gaze duration in [0,20000] ms. This holds for the
  engine's accumulators and for the values it publishes.
\<close>

theorem tick_meters_in_bounds:
  assumes "0 \<le> tickDt now s" and "metersInBounds s"
  shows "0 \<le> signalRef (tick now s) \<and> signalRef (tick now s) \<le> 100
       \<and> 0 \<le> stabilityRef (tick now s) \<and> stabilityRef (tick now s) \<le> 1
       \<and> 0 \<le> interferenceRef (tick now s) \<and> interferenceRef (tick now s) \<le> 1
       \<and> 0 \<le> gazeDurationRef (tick now s) \<and> gazeDurationRef (tick now s) \<le> 20000
       \<and> metersInBounds (tick now s)"
  using tick_keeps_bounds [OF assms] by (simp add: metersInBounds_def)

theorem tick_meters_in_bounds_witness:
  "0 \<le> tickDt 16 trappedRun \<and> metersInBounds trappedRun \<and> metersInBounds (tick 16 trappedRun)"
proof -
  have d: "0 \<le> tickDt 16 trappedRun"
    by (simp add: sample_defs)
  have b: "metersInBounds trappedRun"
    by (simp add: metersInBounds_def sample_defs)
  from tick_meters_in_bounds [OF d b] d b show ?thesis by blast
qed

subsection \<open>Leaving TRAPPED\<close>

lemma tick_phase [simp]: "phase (tick now s) = phase s"
  by (simp add: tick_def tickPublish_def tickInterference_def tickNoFace_def tickGrowDecay_def
      Let_def split: prod.splits)

text \<open>
  C1, as stated, read on the engine's accumulator \<open>signalRef\<close>: in an active run in TRAPPED
  the accumulator has reached 99.02, but the published value, which the threshold effect
  reads, is still 98.9 (the change of 0.12 is below the publishing epsilon 0.15), and the
  phase stays TRAPPED.
\<close>

theorem signal_threshold_lag_counterexample:
  "isGameplayActive laggingRun \<and> phase laggingRun = TRAPPED
   \<and> 99 \<le> signalRef laggingRun
   \<and> signal laggingRun = 98.9
   \<and> phase (signalThresholdEffect laggingRun) = TRAPPED
   \<and> signalRef (signalThresholdEffect laggingRun) \<noteq> 100"
  by (simp add: laggingRun_def sample_defs signalThresholdEffect_def)

subsection \<open>No face: the stacked decay\<close>

lemma face_lastTick [simp]:
  "inCenter (s\<lparr> lastTickRef := x \<rparr>) = inCenter s"
  "hasFace (s\<lparr> lastTickRef := x \<rparr>) = hasFace s"
  "trustGainMultiplier (s\<lparr> lastTickRef := x \<rparr>) = trustGainMultiplier s"
  by (simp_all add: inCenter_def hasFace_def trustGainMultiplier_def)

lemma hasFace_tickGrowDecay [simp]: "hasFace (tickGrowDecay dt s) = hasFace s"
  by (simp add: tickGrowDecay_def hasFace_def)

lemma inCenter_hasFace: "inCenter s \<Longrightarrow> hasFace s"
  by (simp add: inCenter_def Let_def)

lemma tick_no_face_refs:
  assumes "faceBoxRef s = None"
  shows "signalRef (tick now s) =
           clamp (clamp (signalRef s - tickDt now s * LINK_DECAY_PER_SEC) 0 100
                  - tickDt now s * NO_FACE_DECAY_PER_SEC) 0 100"
    and "stabilityRef (tick now s) =
           clamp (clamp (stabilityRef s - tickDt now s * STABILITY_DECAY_PER_SEC) 0 1
                  - tickDt now s * NO_FACE_STABILITY_DECAY_PER_SEC) 0 1"
proof -
  have f: "\<not> hasFace s" "\<not> inCenter s"
    using assms inCenter_hasFace [of s] by (auto simp: hasFace_def)
  show "signalRef (tick now s) =
           clamp (clamp (signalRef s - tickDt now s * LINK_DECAY_PER_SEC) 0 100
                  - tickDt now s * NO_FACE_DECAY_PER_SEC) 0 100"
    using f by (simp add: tick_def Let_def tickNoFace_def) (simp add: tickGrowDecay_def)
  show "stabilityRef (tick now s) =
           clamp (clamp (stabilityRef s - tickDt now s * STABILITY_DECAY_PER_SEC) 0 1
                  - tickDt now s * NO_FACE_STABILITY_DECAY_PER_SEC) 0 1"
    using f by (simp add: tick_def Let_def tickNoFace_def) (simp add: tickGrowDecay_def)
qed

lemma tick_centred_refs:
  assumes "inCenter s"
  shows "signalRef (tick now s) =
           clamp (signalRef s + tickDt now s * LINK_GAIN_PER_SEC * trustGainMultiplier s) 0 100"
    and "stabilityRef (tick now s) = clamp (stabilityRef s + tickDt now s * STABILITY_GAIN_PER_SEC) 0 1"
    and "gazeDurationRef (tick now s) = min 20000 (gazeDurationRef s + tickDt now s * 1000)"
proof -
  have f: "hasFace s" using assms by (rule inCenter_hasFace)
  show "signalRef (tick now s) =
           clamp (signalRef s + tickDt now s * LINK_GAIN_PER_SEC * trustGainMultiplier s) 0 100"
    using f assms by (simp add: tick_def Let_def tickNoFace_def) (simp add: tickGrowDecay_def)
  show "stabilityRef (tick now s) = clamp (stabilityRef s + tickDt now s * STABILITY_GAIN_PER_SEC) 0 1"
    using f assms by (simp add: tick_def Let_def tickNoFace_def) (simp add: tickGrowDecay_def)
  show "gazeDurationRef (tick now s) = min 20000 (gazeDurationRef s + tickDt now s * 1000)"
    using f assms by (simp add: tick_def Let_def) (simp add: tickGrowDecay_def)
qed

text \<open>
  C9, as stated: in a tick without a face (half a second long, from signal 50 and stability 1)
  the ordinary decay takes 4 from the signal and 0.4 from the stability, the additional
  no-face decay takes 3 and 0.175: the additional rate is not the faster one.
\<close>

theorem no_face_rate_counterexample:
  "faceBoxRef noFaceRun = None \<and> tickDt 5500 noFaceRun = 0.5 \<and> signalRef noFaceRun = 50
   \<and> signalRef noFaceRun - signalRef (tickGrowDecay 0.5 noFaceRun) = 4
   \<and> signalRef (tickGrowDecay 0.5 noFaceRun)
       - signalRef (tickNoFace 0.5 (tickGrowDecay 0.5 noFaceRun)) = 3
   \<and> stabilityRef noFaceRun - stabilityRef (tickGrowDecay 0.5 noFaceRun) = 0.4
   \<and> stabilityRef (tickGrowDecay 0.5 noFaceRun)
       - stabilityRef (tickNoFace 0.5 (tickGrowDecay 0.5 noFaceRun)) = 0.175
   \<and> signalRef (tick 5500 noFaceRun) = 43
   \<and> \<not> NO_FACE_DECAY_PER_SEC > LINK_DECAY_PER_SEC
   \<and> \<not> NO_FACE_STABILITY_DECAY_PER_SEC > STABILITY_DECAY_PER_SEC"
  by (simp add: noFaceRun_def sample_defs)

text \<open>
  C9, amended. In a TRAPPED tick without any face the signal and the stability first decay at
  the ordinary rates (8 and 0.8 per second) and then, stacked on top, at the separate no-face
  rates (6 and 0.35 per second), each step clamped; while no clamp is reached the meters fall
  by the sum of both. The additional no-face rate is slower than the ordinary rate; the
  combined rate is faster than the ordinary rate alone.
\<close>

theorem no_face_stacked_decay:
  assumes "faceBoxRef s = None" and "0 \<le> tickDt now s"
    and "(LINK_DECAY_PER_SEC + NO_FACE_DECAY_PER_SEC) * tickDt now s \<le> signalRef s"
    and "signalRef s \<le> 100"
    and "(STABILITY_DECAY_PER_SEC + NO_FACE_STABILITY_DECAY_PER_SEC) * tickDt now s \<le> stabilityRef s"
    and "stabilityRef s \<le> 1"
  shows "signalRef (tick now s) =
           signalRef s - tickDt now s * LINK_DECAY_PER_SEC - tickDt now s * NO_FACE_DECAY_PER_SEC
       \<and> stabilityRef (tick now s) =
           stabilityRef s - tickDt now s * STABILITY_DECAY_PER_SEC
             - tickDt now s * NO_FACE_STABILITY_DECAY_PER_SEC
       \<and> signalRef (tick now s) =
           clamp (clamp (signalRef s - tickDt now s * LINK_DECAY_PER_SEC) 0 100
                  - tickDt now s * NO_FACE_DECAY_PER_SEC) 0 100
       \<and> stabilityRef (tick now s) =
           clamp (clamp (stabilityRef s - tickDt now s * STABILITY_DECAY_PER_SEC) 0 1
                  - tickDt now s * NO_FACE_STABILITY_DECAY_PER_SEC) 0 1
       \<and> NO_FACE_DECAY_PER_SEC < LINK_DECAY_PER_SEC
       \<and> NO_FACE_STABILITY_DECAY_PER_SEC < STABILITY_DECAY_PER_SEC
       \<and> LINK_DECAY_PER_SEC < LINK_DECAY_PER_SEC + NO_FACE_DECAY_PER_SEC
       \<and> STABILITY_DECAY_PER_SEC < STABILITY_DECAY_PER_SEC + NO_FACE_STABILITY_DECAY_PER_SEC"
proof -
  let ?d = "tickDt now s"
  have s1: "clamp (signalRef s - ?d * LINK_DECAY_PER_SEC) 0 100 = signalRef s - ?d * LINK_DECAY_PER_SEC"
    using assms(2,3,4) by (simp add: clamp_def app_consts algebra_simps)
  have s2: "clamp (signalRef s - ?d * LINK_DECAY_PER_SEC - ?d * NO_FACE_DECAY_PER_SEC) 0 100
      = signalRef s - ?d * LINK_DECAY_PER_SEC - ?d * NO_FACE_DECAY_PER_SEC"
    using assms(2,3,4) by (simp add: clamp_def app_consts algebra_simps)
  have t1: "clamp (stabilityRef s - ?d * STABILITY_DECAY_PER_SEC) 0 1 = stabilityRef s - ?d * STABILITY_DECAY_PER_SEC"
    using assms(2,5,6) by (simp add: clamp_def app_consts algebra_simps)
  have t2: "clamp (stabilityRef s - ?d * STABILITY_DECAY_PER_SEC - ?d * NO_FACE_STABILITY_DECAY_PER_SEC) 0 1
      = stabilityRef s - ?d * STABILITY_DECAY_PER_SEC - ?d * NO_FACE_STABILITY_DECAY_PER_SEC"
    using assms(2,5,6) by (simp add: clamp_def app_consts algebra_simps)
  have c: "NO_FACE_DECAY_PER_SEC < LINK_DECAY_PER_SEC"
    "NO_FACE_STABILITY_DECAY_PER_SEC < STABILITY_DECAY_PER_SEC"
    "LINK_DECAY_PER_SEC < LINK_DECAY_PER_SEC + NO_FACE_DECAY_PER_SEC"
    "STABILITY_DECAY_PER_SEC < STABILITY_DECAY_PER_SEC + NO_FACE_STABILITY_DECAY_PER_SEC"
    by (simp_all add: app_consts)
  show ?thesis
    using tick_no_face_refs [OF assms(1), of now] s1 s2 t1 t2 c by simp
qed

theorem no_face_stacked_decay_witness:
  "faceBoxRef noFaceRun = None \<and> 0 \<le> tickDt 5500 noFaceRun
   \<and> signalRef noFaceRun = 50 \<and> stabilityRef noFaceRun = 1
   \<and> signalRef (tick 5500 noFaceRun) = 43 \<and> stabilityRef (tick 5500 noFaceRun) = 0.425"
proof -
  have h: "faceBoxRef noFaceRun = None" "0 \<le> tickDt 5500 noFaceRun"
    "(LINK_DECAY_PER_SEC + NO_FACE_DECAY_PER_SEC) * tickDt 5500 noFaceRun \<le> signalRef noFaceRun"
    "signalRef noFaceRun \<le> 100"
    "(STABILITY_DECAY_PER_SEC + NO_FACE_STABILITY_DECAY_PER_SEC) * tickDt 5500 noFaceRun \<le> stabilityRef noFaceRun"
    "stabilityRef noFaceRun \<le> 1"
    by (simp_all add: noFaceRun_def sample_defs)
  have v: "signalRef noFaceRun = 50" "stabilityRef noFaceRun = 1" "tickDt 5500 noFaceRun = 0.5"
    by (simp_all add: noFaceRun_def sample_defs)
  from no_face_stacked_decay [OF h] h(1,2) v show ?thesis
    by (simp add: app_consts)
qed

subsection \<open>Discrete shocks\<close>

lemma shock_keeps [simp]:
  "phase (triggerSignalShock v s) = phase s"
  "lastLookStateRef (triggerSignalShock v s) = lastLookStateRef s"
  "lastFaceStateRef (triggerSignalShock v s) = lastFaceStateRef s"
  by (simp_all add: triggerSignalShock_def Let_def split: prod.splits)

lemma shock_refs:
  "signalRef (triggerSignalShock v s) =
     clamp (signalRef s - (if v = Face then 16 + signalRef s * 0.12 else 12 + signalRef s * 0.08)) 0 100"
  "stabilityRef (triggerSignalShock v s) = clamp (stabilityRef s - 0.2) 0 1"
  "interferenceRef (triggerSignalShock v s) = clamp (interferenceRef s + 0.35) 0 1"
  by (simp_all add: triggerSignalShock_def Let_def split: prod.splits)

lemma shockEffect_last [simp]:
  "lastLookStateRef (shockEffect l f s) = l"
  "lastFaceStateRef (shockEffect l f s) = f"
  "phase (shockEffect l f s) = phase s"
  by (simp_all add: shockEffect_def Let_def)

lemma shockEffect_no_edge:
  assumes "phase s = TRAPPED" and "\<not> (lastLookStateRef s \<and> \<not> l)" and "\<not> (lastFaceStateRef s \<and> \<not> f)"
  shows "shockEffect l f s = s\<lparr> lastLookStateRef := l, lastFaceStateRef := f \<rparr>"
  using assms by (auto simp add: shockEffect_def Let_def)

lemma shockEffect_settled:
  assumes "phase s = TRAPPED" and "lastLookStateRef s = l" and "lastFaceStateRef s = f"
  shows "shockEffect l f s = s"
  using assms by (auto simp add: shockEffect_def Let_def)

lemma shockEffect_idem: "shockEffect l f (shockEffect l f s) = shockEffect l f s"
proof (cases "phase s = TRAPPED")
  case True
  then show ?thesis by (simp add: shockEffect_settled)
next
  case False
  then show ?thesis by (simp add: shockEffect_def)
qed

lemma shockEffect_sustained: "(shockEffect l f ^^ n) (shockEffect l f s) = shockEffect l f s"
  by (induction n) (simp_all add: shockEffect_idem)

text \<open>
  C8. In TRAPPED the shock effect applies a shock only on an edge: for gaze when the last
  recorded looking flag was set and the new one is not, for the face likewise (both edges in
  one run give both shocks, gaze first). Without an edge the meters are untouched. Once the
  effect has run on a sample, running it again on the same sample any number of times changes
  nothing, so sustained absence does not shock again. A shock lowers the signal by
  12 + 8% of the current signal (gaze) or 16 + 12% (face), the stability by a flat 0.2, and
  raises the interference by 0.35, each clamped to its range.
\<close>

theorem shock_only_on_edge:
  assumes "phase s = TRAPPED"
  shows "(\<not> (lastLookStateRef s \<and> \<not> l) \<and> \<not> (lastFaceStateRef s \<and> \<not> f) \<longrightarrow>
            shockEffect l f s = s\<lparr> lastLookStateRef := l, lastFaceStateRef := f \<rparr>)
       \<and> (lastLookStateRef s \<and> \<not> l \<and> \<not> (lastFaceStateRef s \<and> \<not> f) \<longrightarrow>
            shockEffect l f s =
              (triggerSignalShock Gaze s)\<lparr> lastLookStateRef := l, lastFaceStateRef := f \<rparr>)
       \<and> (\<not> (lastLookStateRef s \<and> \<not> l) \<and> lastFaceStateRef s \<and> \<not> f \<longrightarrow>
            shockEffect l f s =
              (triggerSignalShock Face s)\<lparr> lastLookStateRef := l, lastFaceStateRef := f \<rparr>)
       \<and> (lastLookStateRef s \<and> \<not> l \<and> lastFaceStateRef s \<and> \<not> f \<longrightarrow>
            shockEffect l f s =
              (triggerSignalShock Face (triggerSignalShock Gaze s))
                \<lparr> lastLookStateRef := l, lastFaceStateRef := f \<rparr>)
       \<and> (shockEffect l f ^^ n) (shockEffect l f s) = shockEffect l f s
       \<and> signalRef (triggerSignalShock Gaze s) = clamp (signalRef s - (12 + signalRef s * 0.08)) 0 100
       \<and> signalRef (triggerSignalShock Face s) = clamp (signalRef s - (16 + signalRef s * 0.12)) 0 100
       \<and> stabilityRef (triggerSignalShock v s) = clamp (stabilityRef s - 0.2) 0 1
       \<and> interferenceRef (triggerSignalShock v s) = clamp (interferenceRef s + 0.35) 0 1"
proof -
  have e: "(\<not> (lastLookStateRef s \<and> \<not> l) \<and> \<not> (lastFaceStateRef s \<and> \<not> f) \<longrightarrow>
            shockEffect l f s = s\<lparr> lastLookStateRef := l, lastFaceStateRef := f \<rparr>)"
    using assms by (auto simp add: shockEffect_def Let_def)
  have g: "(lastLookStateRef s \<and> \<not> l \<and> \<not> (lastFaceStateRef s \<and> \<not> f) \<longrightarrow>
            shockEffect l f s =
              (triggerSignalShock Gaze s)\<lparr> lastLookStateRef := l, lastFaceStateRef := f \<rparr>)"
    using assms by (auto simp add: shockEffect_def Let_def)
  have h: "(\<not> (lastLookStateRef s \<and> \<not> l) \<and> lastFaceStateRef s \<and> \<not> f \<longrightarrow>
            shockEffect l f s =
              (triggerSignalShock Face s)\<lparr> lastLookStateRef := l, lastFaceStateRef := f \<rparr>)"
    using assms by (auto simp add: shockEffect_def Let_def)
  have b: "(lastLookStateRef s \<and> \<not> l \<and> lastFaceStateRef s \<and> \<not> f \<longrightarrow>
            shockEffect l f s =
              (triggerSignalShock Face (triggerSignalShock Gaze s))
                \<lparr> lastLookStateRef := l, lastFaceStateRef := f \<rparr>)"
    using assms by (auto simp add: shockEffect_def Let_def)
  show ?thesis
    using e g h b shockEffect_sustained [where l = l and f = f and n = n and s = s] shock_refs [of Gaze s] shock_refs [of Face s]
      shock_refs [of v s]
    by simp
qed

theorem shock_only_on_edge_witness:
  "phase lookingRun = TRAPPED \<and> lastLookStateRef lookingRun \<and> lastFaceStateRef lookingRun
   \<and> signalRef lookingRun = 50 \<and> stabilityRef lookingRun = 1 \<and> interferenceRef lookingRun = 0
   \<and> signalRef (shockEffect False True lookingRun) = 34
   \<and> stabilityRef (shockEffect False True lookingRun) = 0.8
   \<and> interferenceRef (shockEffect False True lookingRun) = 0.35
   \<and> (shockEffect False True ^^ 3) (shockEffect False True lookingRun)
       = shockEffect False True lookingRun"
proof -
  have p: "phase lookingRun = TRAPPED"
    by (simp add: lookingRun_def sample_defs)
  have v: "lastLookStateRef lookingRun" "lastFaceStateRef lookingRun"
    "signalRef lookingRun = 50" "stabilityRef lookingRun = 1" "interferenceRef lookingRun = 0"
    by (simp_all add: lookingRun_def shockEffect_def sample_defs)
  note t = shock_only_on_edge [OF p, where l = False and f = True and n = 3 and v = Gaze]
  from t v have e: "shockEffect False True lookingRun =
      (triggerSignalShock Gaze lookingRun)\<lparr> lastLookStateRef := False, lastFaceStateRef := True \<rparr>"
    by blast
  from t have i: "(shockEffect False True ^^ 3) (shockEffect False True lookingRun)
       = shockEffect False True lookingRun"
    by blast
  from t v have r: "signalRef (triggerSignalShock Gaze lookingRun) = 34"
    "stabilityRef (triggerSignalShock Gaze lookingRun) = 0.8"
    "interferenceRef (triggerSignalShock Gaze lookingRun) = 0.35"
    by (simp_all add: clamp_def)
  have m: "signalRef (shockEffect False True lookingRun) = 34"
    "stabilityRef (shockEffect False True lookingRun) = 0.8"
    "interferenceRef (shockEffect False True lookingRun) = 0.35"
    by (simp_all add: e r)
  from p v m i show ?thesis by blast
qed

subsection \<open>The lock minigame\<close>

lemma clampStage_range: "1 \<le> clampStage v \<and> clampStage v \<le> 3"
  by (simp add: clampStage_def)

lemma clampStage_id: "1 \<le> v \<Longrightarrow> v \<le> 3 \<Longrightarrow> clampStage v = v"
  by (simp add: clampStage_def)

lemma lockMiss_stage:
  "phase s = ANXIOUS \<Longrightarrow> precisionStage (lockMiss s) = max 1 (clampStage (precisionStage s) - 1)"
  by (simp add: lockMiss_def handlePrecisionMiss_def)

lemma lockMiss_phase [simp]: "phase (lockMiss s) = phase s"
  by (simp add: lockMiss_def handlePrecisionMiss_def)

lemma lockMiss_floor: "1 \<le> precisionStage s \<Longrightarrow> 1 \<le> precisionStage (lockMiss s)"
  by (simp add: lockMiss_def handlePrecisionMiss_def)

lemma lockMiss_pow_phase [simp]: "phase ((lockMiss ^^ n) s) = phase s"
  by (induction n) simp_all

lemma lockMiss_pow_floor: "1 \<le> precisionStage s \<Longrightarrow> 1 \<le> precisionStage ((lockMiss ^^ n) s)"
  by (induction n) (simp_all add: lockMiss_floor)

lemma lockMiss_pow_at_one:
  "phase s = ANXIOUS \<Longrightarrow> precisionStage s = 1 \<Longrightarrow> precisionStage ((lockMiss ^^ n) s) = 1"
  by (induction n) (simp_all add: lockMiss_stage clampStage_def)

text \<open>
  C5. In ANXIOUS a hit at a stage below 3 sets the stage to one more and leaves the phase, a
  hit at stage 3 moves the phase to WORK, and a miss sets the stage to one less, but never
  below 1. The lock reports its own stage (the stage clamped to 1..3) with every hit and
  miss, so after any number of consecutive misses the stage is still at least 1, and from
  stage 1 it stays 1.
\<close>

theorem lock_stage_rule:
  assumes "phase s = ANXIOUS" and "1 \<le> precisionStage s"
  shows "(st < 3 \<longrightarrow> precisionStage (handlePrecisionHit st s) = st + 1
                    \<and> phase (handlePrecisionHit st s) = ANXIOUS)
       \<and> (st = 3 \<longrightarrow> phase (handlePrecisionHit st s) = WORK)
       \<and> precisionStage (handlePrecisionMiss st s) = max 1 (st - 1)
       \<and> (1 < st \<longrightarrow> precisionStage (handlePrecisionMiss st s) = st - 1)
       \<and> 1 \<le> precisionStage (handlePrecisionMiss st s)
       \<and> phase (handlePrecisionMiss st s) = ANXIOUS
       \<and> (precisionStage s \<le> 3 \<longrightarrow>
            lockHit s = handlePrecisionHit (precisionStage s) s
            \<and> lockMiss s = handlePrecisionMiss (precisionStage s) s)
       \<and> 1 \<le> precisionStage ((lockMiss ^^ n) s)
       \<and> (precisionStage s = 1 \<longrightarrow> precisionStage ((lockMiss ^^ n) s) = 1)"
  using assms lockMiss_pow_floor [of s n] lockMiss_pow_at_one [of s n]
  by (simp add: handlePrecisionHit_def handlePrecisionMiss_def lockHit_def lockMiss_def
      clampStage_id)

theorem lock_stage_rule_witness:
  "phase anxiousRun = ANXIOUS \<and> precisionStage anxiousRun = 1
   \<and> precisionStage (handlePrecisionHit 1 anxiousRun) = 2
   \<and> phase (handlePrecisionHit 3 anxiousRun) = WORK
   \<and> precisionStage (handlePrecisionMiss 3 anxiousRun) = 2
   \<and> precisionStage (handlePrecisionMiss 1 anxiousRun) = 1
   \<and> precisionStage ((lockMiss ^^ 5) anxiousRun) = 1"
proof -
  have h: "phase anxiousRun = ANXIOUS" "precisionStage anxiousRun = 1"
    by (simp_all add: anxiousRun_def publishedRun_def sample_defs step_defs)
  then have g: "1 \<le> precisionStage anxiousRun" by simp
  from lock_stage_rule [OF h(1) g, of 1 5] lock_stage_rule [OF h(1) g, of 3 5] h
  show ?thesis by simp
qed

subsection \<open>Lists of events\<close>

lemma run_append: "run (xs @ ys) s = run ys (run xs s)"
  by (simp add: run_def)



subsection \<open>The presence monitor\<close>

lemma clearPresenceTimers_fields [simp]:
  "phase (clearPresenceTimers s) = phase s"
  "appState (clearPresenceTimers s) = appState s"
  "awakeningActive (clearPresenceTimers s) = awakeningActive s"
  "failureTriggeredRef (clearPresenceTimers s) = failureTriggeredRef s"
  "presenceDeadlineRef (clearPresenceTimers s) = None"
  "presenceIntervalRef (clearPresenceTimers s) = False"
  "presenceWarnedRef (clearPresenceTimers s) = False"
  "presenceWarning (clearPresenceTimers s) = False"
  "presenceRemainingMs (clearPresenceTimers s) = PRESENCE_GRACE_MS"
  by (simp_all add: clearPresenceTimers_def)














subsection \<open>Completion and collisions of the block-transfer task\<close>

lemma closerThan_squares [code]:
  "closerThan a b t \<longleftrightarrow> 0 < t \<and> (fst a - fst b)\<^sup>2 + (snd a - snd b)\<^sup>2 < t\<^sup>2"
proof (cases "0 < t")
  case True
  have "sqrt ((fst a - fst b)\<^sup>2 + (snd a - snd b)\<^sup>2) < t
        \<longleftrightarrow> (fst a - fst b)\<^sup>2 + (snd a - snd b)\<^sup>2 < t\<^sup>2"
    using True real_less_lsqrt [of "(fst a - fst b)\<^sup>2 + (snd a - snd b)\<^sup>2" t]
      real_sqrt_less_iff [of "(fst a - fst b)\<^sup>2 + (snd a - snd b)\<^sup>2" "t\<^sup>2"]
    by auto
  with True show ?thesis by (simp add: closerThan_def distance_def)
next
  case False
  have "0 \<le> sqrt ((fst a - fst b)\<^sup>2 + (snd a - snd b)\<^sup>2)" by simp
  with False have "\<not> sqrt ((fst a - fst b)\<^sup>2 + (snd a - snd b)\<^sup>2) < t" by linarith
  with False show ?thesis by (simp add: closerThan_def distance_def)
qed


lemmas task_consts =
  TOTAL_BLOCKS_def ZONE_THRESHOLD_def MAGNET_THRESHOLD_def LOST_TRACKING_GRACE_FRAMES_def
  FIREWALL_X_def FIREWALL_HALF_WIDTH_def FIREWALL_COOLDOWN_MS_def FIREWALL_MIN_Y_def
  FIREWALL_MAX_Y_def FIREWALL_HEIGHT_def zoneA_def baseTarget_def

lemmas task_defs =
  handEffect_def handIdle_def handCarry_def completeCheck_def firewallCollision_def
  inFirewallBand_def firewallActive_def progressEffect_def targetResetEffect_def
  targetTick_def firewallTick_def collisionFlashEnd_def isMovingBlock_def clampTarget_def
  closerThan_squares clamp_def

lemma handIdle_inv: "taskInv s \<Longrightarrow> taskInv (handIdle h s)"
  by (auto simp add: handIdle_def Let_def completeCheck_def taskInv_def completions_def)

lemma handCarry_inv:
  assumes "taskInv s" and "completedCount s < TOTAL_BLOCKS"
  shows "taskInv (handCarry h now s)"
proof -
  have n: "\<not> completeRef s" "completions s = 0"
    using assms by (simp_all add: taskInv_def)
  show ?thesis
    using n assms(2)
    by (simp add: handCarry_def Let_def completeCheck_def taskInv_def completions_def)
qed

lemma taskStep_inv: "taskInv s \<Longrightarrow> taskInv (taskStep ev s)"
proof (cases ev)
  case (HandEffect h now)
  assume i: "taskInv s"
  show ?thesis
  proof (cases h)
    case None
    with i HandEffect show ?thesis by (simp add: handEffect_def handIdle_inv)
  next
    case (Some p)
    with i HandEffect show ?thesis
      by (cases "TOTAL_BLOCKS \<le> completedCount s")
         (simp_all add: handEffect_def handIdle_inv handCarry_inv)
  qed
qed (auto simp add: taskInv_def completions_def progressEffect_def targetResetEffect_def
      targetTick_def firewallTick_def collisionFlashEnd_def)

lemma taskRun_inv: "taskInv s \<Longrightarrow> taskInv (taskRun evs s)"
  unfolding taskRun_def
  by (induction evs arbitrary: s) (simp_all add: taskStep_inv)

lemma initialTask_inv: "taskInv initialTask"
  by (simp add: taskInv_def initialTask_def completions_def TOTAL_BLOCKS_def)

lemma collision_step:
  assumes "grabbing s" and "completedCount s < TOTAL_BLOCKS"
    and "firewallCollision (clamp (fst h) 0 1, clamp (snd h) 0 1) now s"
  shows "handEffect (Some h) now s =
           s\<lparr> lostTrackingFramesRef := 0, firewallCooldownRef := now, grabbing := False,
              blockPos := zoneA, collisionActive := True,
              emitted := emitted s @ [OnTransferError] \<rparr>"
  using assms by (simp add: handEffect_def handCarry_def Let_def)

lemma fourth_transfer:
  assumes "grabbing s" and "completedCount s = 3" and "\<not> completeRef s"
    and "\<not> firewallCollision (clamp (fst h) 0 1, clamp (snd h) 0 1) now s"
    and "closerThan (clamp (fst h) 0 1, clamp (snd h) 0 1) (targetPosRef s) ZONE_THRESHOLD"
  shows "emitted (handEffect (Some h) now s) = emitted s @ [OnTransferSuccess 4, OnComplete]"
    and "completedCount (handEffect (Some h) now s) = 4"
  using assms by (simp_all add: handEffect_def handCarry_def Let_def completeCheck_def TOTAL_BLOCKS_def)

text \<open>
  C7. In every state the block-transfer task can reach, the completion callback has been
  invoked exactly once if the count of successful transfers has reached the total of 4, and
  never before; so the fourth transfer fires it (right after its transfer-success callback)
  and no later update fires it again. A firewall collision while carrying (the hand inside
  the band of the active firewall, the 900 ms cooldown since the previous collision over) puts
  the block back at the source zone, ends the carry, invokes the transfer-error callback and
  nothing else, and leaves the count as it was.
\<close>

theorem block_task_completion_and_collision:
  "TOTAL_BLOCKS = 4
   \<and> completions (taskRun evs initialTask)
       = (if TOTAL_BLOCKS \<le> completedCount (taskRun evs initialTask) then 1 else 0)
   \<and> (grabbing s \<and> completedCount s = 3 \<and> \<not> completeRef s
        \<and> \<not> firewallCollision (clamp (fst h) 0 1, clamp (snd h) 0 1) now s
        \<and> closerThan (clamp (fst h) 0 1, clamp (snd h) 0 1) (targetPosRef s) ZONE_THRESHOLD \<longrightarrow>
          emitted (handEffect (Some h) now s) = emitted s @ [OnTransferSuccess 4, OnComplete]
          \<and> completedCount (handEffect (Some h) now s) = 4)
   \<and> (grabbing s \<and> completedCount s < TOTAL_BLOCKS
        \<and> firewallCollision (clamp (fst h) 0 1, clamp (snd h) 0 1) now s \<longrightarrow>
          blockPos (handEffect (Some h) now s) = zoneA
          \<and> \<not> grabbing (handEffect (Some h) now s)
          \<and> emitted (handEffect (Some h) now s) = emitted s @ [OnTransferError]
          \<and> completedCount (handEffect (Some h) now s) = completedCount s
          \<and> firewallCooldownRef (handEffect (Some h) now s) = now)"
proof -
  have i: "taskInv (taskRun evs initialTask)"
    using initialTask_inv by (rule taskRun_inv)
  then have c: "completions (taskRun evs initialTask)
       = (if TOTAL_BLOCKS \<le> completedCount (taskRun evs initialTask) then 1 else 0)"
    by (auto simp add: taskInv_def)
  have f: "grabbing s \<and> completedCount s = 3 \<and> \<not> completeRef s
        \<and> \<not> firewallCollision (clamp (fst h) 0 1, clamp (snd h) 0 1) now s
        \<and> closerThan (clamp (fst h) 0 1, clamp (snd h) 0 1) (targetPosRef s) ZONE_THRESHOLD \<longrightarrow>
          emitted (handEffect (Some h) now s) = emitted s @ [OnTransferSuccess 4, OnComplete]
          \<and> completedCount (handEffect (Some h) now s) = 4"
    using fourth_transfer [of s h now] by blast
  have x: "grabbing s \<and> completedCount s < TOTAL_BLOCKS
        \<and> firewallCollision (clamp (fst h) 0 1, clamp (snd h) 0 1) now s \<longrightarrow>
          blockPos (handEffect (Some h) now s) = zoneA
          \<and> \<not> grabbing (handEffect (Some h) now s)
          \<and> emitted (handEffect (Some h) now s) = emitted s @ [OnTransferError]
          \<and> completedCount (handEffect (Some h) now s) = completedCount s
          \<and> firewallCooldownRef (handEffect (Some h) now s) = now"
    by (clarify, simp add: collision_step)
  have t: "TOTAL_BLOCKS = 4" by (simp add: TOTAL_BLOCKS_def)
  from t c f x show ?thesis by blast
qed

lemma carryingTask_eval:
  "carryingTask =
     \<lparr> completedCount = 2, grabbing = True, blockPos = zoneA, targetPosRef = baseTarget,
       completeRef = False, lostTrackingFramesRef = 0, firewallCooldownRef = 0,
       firewallYRef = 0.5, collisionActive = False,
       emitted = [OnTransferSuccess 1, OnProgress 1, OnTransferSuccess 2, OnProgress 2] \<rparr>"
  by (simp add: carryingTask_def oneTransfer_def taskRun_def initialTask_def task_defs task_consts)

lemma fullRun_eval:
  "completedCount (taskRun fullRun initialTask) = 4"
  by (simp add: fullRun_def oneTransfer_def taskRun_def initialTask_def task_defs task_consts)

theorem block_task_completion_and_collision_witness:
  "completedCount (taskRun fullRun initialTask) = 4
   \<and> completions (taskRun fullRun initialTask) = 1
   \<and> grabbing carryingTask \<and> completedCount carryingTask = 2
   \<and> firewallCollision (0.5, 0.5) 4000 carryingTask
   \<and> blockPos (handEffect (Some (0.5, 0.5)) 4000 carryingTask) = zoneA
   \<and> emitted (handEffect (Some (0.5, 0.5)) 4000 carryingTask)
       = [OnTransferSuccess 1, OnProgress 1, OnTransferSuccess 2, OnProgress 2, OnTransferError]
   \<and> completedCount (handEffect (Some (0.5, 0.5)) 4000 carryingTask) = 2"
proof -
  have h: "grabbing carryingTask" "completedCount carryingTask = 2"
    "firewallCollision (0.5, 0.5) 4000 carryingTask"
    "emitted carryingTask = [OnTransferSuccess 1, OnProgress 1, OnTransferSuccess 2, OnProgress 2]"
    by (simp_all add: carryingTask_eval firewallCollision_def inFirewallBand_def firewallActive_def
        clamp_def task_consts)
  have k: "(clamp (fst (0.5::real, 0.5::real)) 0 1, clamp (snd (0.5::real, 0.5::real)) 0 1) = (0.5, 0.5)"
    by (simp add: clamp_def)
  note w = block_task_completion_and_collision [where evs = fullRun and s = carryingTask
      and h = "(0.5, 0.5)" and now = 4000, unfolded k]
  from w h fullRun_eval show ?thesis
    by (simp add: TOTAL_BLOCKS_def)
qed

subsection \<open>What gates the growth of the meters\<close>

lemma tick_not_centred_refs:
  assumes "\<not> inCenter s" and "0 \<le> tickDt now s"
  shows "0 \<le> signalRef s \<Longrightarrow> signalRef (tick now s) \<le> signalRef s"
    and "0 \<le> stabilityRef s \<Longrightarrow> stabilityRef (tick now s) \<le> stabilityRef s"
    and "gazeDurationRef (tick now s) = 0"
proof -
  let ?d = "tickDt now s"
  let ?u = "tickGrowDecay ?d (s\<lparr> lastTickRef := Some now \<rparr>)"
  have u: "signalRef ?u = clamp (signalRef s - ?d * LINK_DECAY_PER_SEC) 0 100"
    "stabilityRef ?u = clamp (stabilityRef s - ?d * STABILITY_DECAY_PER_SEC) 0 1"
    "gazeDurationRef ?u = 0"
    using assms(1) by (simp_all add: tickGrowDecay_def)
  have t: "signalRef (tick now s) = signalRef (tickNoFace ?d ?u)"
    "stabilityRef (tick now s) = stabilityRef (tickNoFace ?d ?u)"
    "gazeDurationRef (tick now s) = gazeDurationRef ?u"
    by (simp_all add: tick_def Let_def)
  have m: "0 \<le> ?d * LINK_DECAY_PER_SEC" "0 \<le> ?d * NO_FACE_DECAY_PER_SEC"
    "0 \<le> ?d * STABILITY_DECAY_PER_SEC" "0 \<le> ?d * NO_FACE_STABILITY_DECAY_PER_SEC"
    using assms(2) by (simp_all add: app_consts)
  show "0 \<le> signalRef s \<Longrightarrow> signalRef (tick now s) \<le> signalRef s"
    using m(1,2) unfolding t tickNoFace_def by (auto simp add: u clamp_def)
  show "0 \<le> stabilityRef s \<Longrightarrow> stabilityRef (tick now s) \<le> stabilityRef s"
    using m(3,4) unfolding t tickNoFace_def by (auto simp add: u clamp_def)
  show "gazeDurationRef (tick now s) = 0"
    by (simp add: t u)
qed

lemma tick_centred_grows:
  assumes "inCenter s" and "0 < tickDt now s"
  shows "signalRef s < 100 \<Longrightarrow> signalRef s < signalRef (tick now s)"
    and "stabilityRef s < 1 \<Longrightarrow> stabilityRef s < stabilityRef (tick now s)"
    and "gazeDurationRef s < 20000 \<Longrightarrow> gazeDurationRef s < gazeDurationRef (tick now s)"
proof -
  have g: "0 < tickDt now s * LINK_GAIN_PER_SEC * trustGainMultiplier s"
    "0 < tickDt now s * STABILITY_GAIN_PER_SEC"
    using assms(2) by (simp_all add: app_consts trustGainMultiplier_def)
  show "signalRef s < 100 \<Longrightarrow> signalRef s < signalRef (tick now s)"
    using g(1) by (simp add: tick_centred_refs(1) [OF assms(1)] clamp_def)
  show "stabilityRef s < 1 \<Longrightarrow> stabilityRef s < stabilityRef (tick now s)"
    using g(2) by (simp add: tick_centred_refs(2) [OF assms(1)] clamp_def)
  show "gazeDurationRef s < 20000 \<Longrightarrow> gazeDurationRef s < gazeDurationRef (tick now s)"
    using assms(2) by (simp add: tick_centred_refs(3) [OF assms(1)])
qed

lemma inCenter_box:
  "inCenter s = (\<exists>b. faceBoxRef s = Some b
                     \<and> \<bar>box_x b + box_width b / 2 - 0.5\<bar> < 0.18
                     \<and> \<bar>box_y b + box_height b / 2 - 0.5\<bar> < 0.22)"
  by (cases "faceBoxRef s") (simp_all add: inCenter_def hasFace_def)

lemma frameLooking_anchor:
  "frameLooking lm = (\<exists>a. frameAnchor lm = Some a \<and> \<bar>fst a - 0.5\<bar> < 0.12 \<and> \<bar>snd a - 0.5\<bar> < 0.18)"
  by (cases "frameAnchor lm")
     (simp_all add: frameLooking_def Let_def LOOK_CENTER_X_TOL_def LOOK_CENTER_Y_TOL_def)

lemma frameLooking_hasFace: "frameLooking lm \<Longrightarrow> frameHasFace lm"
  by (cases lm) (simp_all add: frameLooking_def frameAnchor_def frameHasFace_def)

lemma gazeLoop_isLooking: "isLooking (gazeLoop lm g) = frameLooking lm"
proof -
  have a: "isLooking (setFaceBoxState b h) = isLooking h" for b h
    by (simp add: setFaceBoxState_def Let_def split: option.splits)
  have b: "isLooking (setGazeState x y h) = y" for x y h
    by (simp add: setGazeState_def Let_def)
  show ?thesis
    using frameLooking_hasFace [of lm] by (auto simp add: gazeLoop_def Let_def a b)
qed

lemma offAnchor_eval:
  "\<not> isLooking (gazeLoop offAnchorFrame initialGaze)"
  "faceDetected (gazeLoop offAnchorFrame initialGaze)"
  "faceBox (gazeLoop offAnchorFrame initialGaze)
     = Some \<lparr> box_x = 0.5, box_y = 0.3, box_width = 0.3, box_height = 0.4 \<rparr>"
  by (simp_all add: gazeLoop_def setFaceBoxState_def setGazeState_def frameFaceBox_def
      frameLooking_def frameAnchor_def frameHasFace_def offAnchorFrame_def initialGaze_def
      LOOK_CENTER_X_TOL_def LOOK_CENTER_Y_TOL_def Let_def)

lemma offAnchorRun_eval:
  "inCenter offAnchorRun" "tickDt 16 offAnchorRun = 0.016"
  "signalRef offAnchorRun = 0" "stabilityRef offAnchorRun = 0" "gazeDurationRef offAnchorRun = 0"
  by (simp_all add: offAnchorRun_def offAnchor_eval sample_defs)

text \<open>
  C10. In a TRAPPED tick with a positive delta-time and the meters below their ceilings, the
  signal, the stability and the gaze duration grow exactly when the centre of the face box is
  within 0.18 of the frame centre horizontally and 0.22 vertically; the tick does not read the
  tracker's looking flag. That flag asks for the anchor landmark within 0.12 and 0.18. For the
  off-anchor frame the tracker publishes a detected face that is not looking, and the meters
  of a run holding its face box grow.
\<close>

theorem growth_gated_by_face_box:
  "(0 < tickDt now s \<and> 0 \<le> signalRef s \<and> signalRef s < 100
      \<and> 0 \<le> stabilityRef s \<and> stabilityRef s < 1
      \<and> 0 \<le> gazeDurationRef s \<and> gazeDurationRef s < 20000 \<longrightarrow>
        (signalRef s < signalRef (tick now s)) = inCenter s
        \<and> (stabilityRef s < stabilityRef (tick now s)) = inCenter s
        \<and> (gazeDurationRef s < gazeDurationRef (tick now s)) = inCenter s)
   \<and> inCenter s = (\<exists>b. faceBoxRef s = Some b
                        \<and> \<bar>box_x b + box_width b / 2 - 0.5\<bar> < 0.18
                        \<and> \<bar>box_y b + box_height b / 2 - 0.5\<bar> < 0.22)
   \<and> frameLooking lm = (\<exists>a. frameAnchor lm = Some a
                             \<and> \<bar>fst a - 0.5\<bar> < 0.12 \<and> \<bar>snd a - 0.5\<bar> < 0.18)
   \<and> isLooking (gazeLoop lm g) = frameLooking lm
   \<and> \<not> isLooking (gazeLoop offAnchorFrame initialGaze)
   \<and> faceDetected (gazeLoop offAnchorFrame initialGaze)
   \<and> inCenter offAnchorRun
   \<and> signalRef offAnchorRun < signalRef (tick 16 offAnchorRun)
   \<and> stabilityRef offAnchorRun < stabilityRef (tick 16 offAnchorRun)
   \<and> gazeDurationRef offAnchorRun < gazeDurationRef (tick 16 offAnchorRun)"
proof -
  have gen: "0 < tickDt now s \<and> 0 \<le> signalRef s \<and> signalRef s < 100
      \<and> 0 \<le> stabilityRef s \<and> stabilityRef s < 1
      \<and> 0 \<le> gazeDurationRef s \<and> gazeDurationRef s < 20000 \<longrightarrow>
        (signalRef s < signalRef (tick now s)) = inCenter s
        \<and> (stabilityRef s < stabilityRef (tick now s)) = inCenter s
        \<and> (gazeDurationRef s < gazeDurationRef (tick now s)) = inCenter s"
  proof (intro impI, elim conjE)
    assume h: "0 < tickDt now s" "0 \<le> signalRef s" "signalRef s < 100"
      "0 \<le> stabilityRef s" "stabilityRef s < 1"
      "0 \<le> gazeDurationRef s" "gazeDurationRef s < 20000"
    then have d: "0 \<le> tickDt now s" by simp
    show "(signalRef s < signalRef (tick now s)) = inCenter s
        \<and> (stabilityRef s < stabilityRef (tick now s)) = inCenter s
        \<and> (gazeDurationRef s < gazeDurationRef (tick now s)) = inCenter s"
    proof (cases "inCenter s")
      case True
      with tick_centred_grows [OF True h(1)] h show ?thesis by simp
    next
      case False
      with tick_not_centred_refs [OF False d] h show ?thesis by simp
    qed
  qed
  have o: "0 < tickDt 16 offAnchorRun" "signalRef offAnchorRun < 100"
    "stabilityRef offAnchorRun < 1" "gazeDurationRef offAnchorRun < 20000"
    by (simp_all add: offAnchorRun_eval)
  note c = tick_centred_grows [OF offAnchorRun_eval(1) o(1)]
  show ?thesis
    using gen inCenter_box [of s] frameLooking_anchor [of lm] gazeLoop_isLooking [of lm g]
      offAnchor_eval(1,2) offAnchorRun_eval(1) c(1) [OF o(2)] c(2) [OF o(3)] c(3) [OF o(4)]
    by blast
qed

theorem growth_gated_by_face_box_witness:
  "0 < tickDt 16 offAnchorRun \<and> signalRef offAnchorRun = 0 \<and> stabilityRef offAnchorRun = 0
   \<and> gazeDurationRef offAnchorRun = 0
   \<and> \<not> frameLooking offAnchorFrame
   \<and> inCenter offAnchorRun
   \<and> (signalRef offAnchorRun < signalRef (tick 16 offAnchorRun)) = inCenter offAnchorRun
   \<and> (gazeDurationRef offAnchorRun < gazeDurationRef (tick 16 offAnchorRun)) = inCenter offAnchorRun"
proof -
  have h: "0 < tickDt 16 offAnchorRun" "signalRef offAnchorRun = 0" "stabilityRef offAnchorRun = 0"
    "gazeDurationRef offAnchorRun = 0"
    by (simp_all add: offAnchorRun_eval)
  then have p: "0 < tickDt 16 offAnchorRun \<and> 0 \<le> signalRef offAnchorRun \<and> signalRef offAnchorRun < 100
      \<and> 0 \<le> stabilityRef offAnchorRun \<and> stabilityRef offAnchorRun < 1
      \<and> 0 \<le> gazeDurationRef offAnchorRun \<and> gazeDurationRef offAnchorRun < 20000"
    by simp
  note w = growth_gated_by_face_box [where now = 16 and s = offAnchorRun
      and lm = offAnchorFrame and g = initialGaze]
  from w have a: "isLooking (gazeLoop offAnchorFrame initialGaze) = frameLooking offAnchorFrame"
    and b: "\<not> isLooking (gazeLoop offAnchorFrame initialGaze)"
    and c: "inCenter offAnchorRun"
    by blast+
  from w [THEN conjunct1, THEN mp, OF p]
  have d: "(signalRef offAnchorRun < signalRef (tick 16 offAnchorRun)) = inCenter offAnchorRun"
    "(gazeDurationRef offAnchorRun < gazeDurationRef (tick 16 offAnchorRun)) = inCenter offAnchorRun"
    by blast+
  from h a b c d show ?thesis by blast
qed

subsection \<open>The bounds hold along every run\<close>

lemma metersInBounds_values:
  "meterValues s' = meterValues s \<Longrightarrow> metersInBounds s' = metersInBounds s"
  by (simp add: meterValues_def metersInBounds_def)

lemma shock_published:
  "signal (triggerSignalShock v s) = signal s \<or> signal (triggerSignalShock v s) = signalRef (triggerSignalShock v s)"
  "stability (triggerSignalShock v s) = stability s \<or> stability (triggerSignalShock v s) = stabilityRef (triggerSignalShock v s)"
  "interference (triggerSignalShock v s) = interference s \<or> interference (triggerSignalShock v s) = interferenceRef (triggerSignalShock v s)"
  "gazeDurationMs (triggerSignalShock v s) = gazeDurationMs s"
  "gazeDurationRef (triggerSignalShock v s) = gazeDurationRef s"
  by (simp_all add: triggerSignalShock_def publishValue_def Let_def)

lemma shock_keeps_bounds:
  assumes "metersInBounds s"
  shows "metersInBounds (triggerSignalShock v s)"
proof -
  let ?t = "triggerSignalShock v s"
  have r: "0 \<le> signalRef ?t \<and> signalRef ?t \<le> 100" "0 \<le> stabilityRef ?t \<and> stabilityRef ?t \<le> 1"
    "0 \<le> interferenceRef ?t \<and> interferenceRef ?t \<le> 1"
    by (simp_all add: shock_refs clamp_def)
  have p1: "0 \<le> signal ?t \<and> signal ?t \<le> 100"
    using shock_published(1) [of v s] r(1) assms by (auto simp: metersInBounds_def)
  have p2: "0 \<le> stability ?t \<and> stability ?t \<le> 1"
    using shock_published(2) [of v s] r(2) assms by (auto simp: metersInBounds_def)
  have p3: "0 \<le> interference ?t \<and> interference ?t \<le> 1"
    using shock_published(3) [of v s] r(3) assms by (auto simp: metersInBounds_def)
  have g: "0 \<le> gazeDurationMs ?t \<and> gazeDurationMs ?t \<le> 20000"
    "0 \<le> gazeDurationRef ?t \<and> gazeDurationRef ?t \<le> 20000"
    using assms by (simp_all add: shock_published(4,5) metersInBounds_def)
  show ?thesis
    unfolding metersInBounds_def using r p1 p2 p3 g by blast
qed

lemma shockEffect_keeps_bounds:
  assumes "metersInBounds s"
  shows "metersInBounds (shockEffect l f s)"
proof -
  have k: "metersInBounds (x\<lparr> lastLookStateRef := l, lastFaceStateRef := f \<rparr>) = metersInBounds x" for x
    by (rule metersInBounds_values) (simp add: meterValues_def)
  show ?thesis
    using assms by (simp add: shockEffect_def Let_def k shock_keeps_bounds)
qed

lemma meterValues_untouched:
  "meterValues (meterLoopEffect s) = meterValues s"
  "meterValues (stageResetEffect s) = meterValues s"
  "meterValues (transferResetEffect s) = meterValues s"
  "meterValues (firewallResetEffect s) = meterValues s"
  "meterValues (awakenedEffect s) = meterValues s"
  "meterValues (faceBoxEffect b s) = meterValues s"
  "meterValues (handlePrecisionHit st s) = meterValues s"
  "meterValues (handlePrecisionMiss st s) = meterValues s"
  "meterValues (handleBlockProgress n s) = meterValues s"
  "meterValues (handleBlockComplete s) = meterValues s"
  "meterValues (transferEffect s) = meterValues s"
  "meterValues (handleKeyDown c s) = meterValues s"
  "meterValues (firewallDecay s) = meterValues s"
  "meterValues (firewallCompleteEffect s) = meterValues s"
  "meterValues (handleAwakeningEnded s) = meterValues s"
  "meterValues (clearPresenceTimers s) = meterValues s"
  by (simp_all add: meterValues_def meterLoopEffect_def stageResetEffect_def
      transferResetEffect_def firewallResetEffect_def awakenedEffect_def faceBoxEffect_def
      handlePrecisionHit_def handlePrecisionMiss_def handleBlockProgress_def
      handleBlockComplete_def transferEffect_def handleKeyDown_def firewallDecay_def
      firewallCompleteEffect_def handleAwakeningEnded_def clearPresenceTimers_def)

lemma handleAttempt_values: "meterValues (handleAttempt a p z s) = meterValues s"
  by (simp add: handleAttempt_def Let_def meterValues_untouched)

lemma presenceEffect_values: "meterValues (presenceEffect r f now s) = meterValues s"
proof -
  have k: "meterValues (clearPresenceTimers x) = meterValues s" if "meterValues x = meterValues s" for x
    using that by (simp add: meterValues_untouched)
  show ?thesis
    by (simp add: presenceEffect_def Let_def k) (simp add: meterValues_def clearPresenceTimers_def)
qed

lemma triggerFailure_keeps_bounds: "metersInBounds s \<Longrightarrow> metersInBounds (triggerFailure s)"
  by (simp add: triggerFailure_def clearPresenceTimers_def metersInBounds_def)

lemma presenceInterval_keeps_bounds:
  assumes "metersInBounds s"
  shows "metersInBounds (presenceInterval now s)"
proof -
  have a: "metersInBounds (clearPresenceTimers (s\<lparr> presenceRemainingMs := 0 \<rparr>))"
    using assms by (simp add: clearPresenceTimers_def metersInBounds_def)
  have b: "metersInBounds (s\<lparr> presenceWarning := True, presenceRemainingMs := r \<rparr>)" for r
    using assms by (simp add: metersInBounds_def)
  show ?thesis
    using assms a b
    by (simp add: presenceInterval_def Let_def triggerFailure_keeps_bounds split: option.splits)
qed

lemma forced_meters_in_bounds:
  "metersInBounds s \<Longrightarrow> metersInBounds (phaseMeterEffect s)"
  "metersInBounds s \<Longrightarrow> metersInBounds (signalThresholdEffect s)"
  "metersInBounds (startGameplay trust s)"
  "metersInBounds (hardReset s)"
  by (simp_all add: metersInBounds_def phaseMeterEffect_def signalThresholdEffect_def
      startGameplay_def hardReset_def resetRunState_def resetTrappedState_def
      clearPresenceTimers_def)

lemma appStep_keeps_bounds:
  assumes "metersInBounds s" and "\<And>now. ev = MeterFrame now \<Longrightarrow> 0 \<le> tickDt now s"
  shows "metersInBounds (appStep ev s)"
proof (cases ev)
  case (MeterFrame now)
  with assms show ?thesis by (simp add: meterFrame_def tick_keeps_bounds)
next
  case (ShockEffect l f)
  with assms(1) show ?thesis by (simp add: shockEffect_keeps_bounds)
next
  case (PresenceInterval now)
  with assms(1) show ?thesis by (simp add: presenceInterval_keeps_bounds)
qed (use assms(1) in \<open>simp_all add: forced_meters_in_bounds
      metersInBounds_values [OF meterValues_untouched(1)]
      metersInBounds_values [OF meterValues_untouched(2)]
      metersInBounds_values [OF meterValues_untouched(3)]
      metersInBounds_values [OF meterValues_untouched(4)]
      metersInBounds_values [OF meterValues_untouched(5)]
      metersInBounds_values [OF meterValues_untouched(6)]
      metersInBounds_values [OF meterValues_untouched(9)]
      metersInBounds_values [OF meterValues_untouched(10)]
      metersInBounds_values [OF meterValues_untouched(11)]
      metersInBounds_values [OF meterValues_untouched(12)]
      metersInBounds_values [OF meterValues_untouched(13)]
      metersInBounds_values [OF meterValues_untouched(14)]
      metersInBounds_values [OF meterValues_untouched(15)]
      metersInBounds_values [OF handleAttempt_values]
      metersInBounds_values [OF presenceEffect_values]\<close>)

lemma initialApp_in_bounds: "metersInBounds initialApp"
  by (simp add: metersInBounds_def initialApp_def)

section \<open>Properties of renders and commits\<close>

subsection \<open>What one commit does to the phase, the signal and the firewall progress\<close>

lemma shock_keeps_flags [simp]:
  "appState (triggerSignalShock v s) = appState s"
  "awakeningActive (triggerSignalShock v s) = awakeningActive s"
  "firewallProgress (triggerSignalShock v s) = firewallProgress s"
  by (simp_all add: triggerSignalShock_def Let_def split: prod.splits)

lemma commit_phase [simp]:
  "phase (faceBoxEffect b s) = phase s"
  "phase (presenceEffectAt r d f now s) = phase s"
  "phase (presenceWarnEffectAt r d s) = phase s"
  "phase (phaseMeterEffectAt r s) = phase s"
  "phase (meterLoopEffectAt r s) = phase s"
  "phase (signalThresholdEffectAt r s) = (if isGameplayActive r \<and> phase r = TRAPPED \<and> 99 \<le> signal r then ANXIOUS else phase s)"
  "phase (stageResetEffect s) = phase s"
  "phase (shockEffectAt r l f s) = phase s"
  "phase (transferResetEffectAt r s) = phase s"
  "phase (firewallResetEffectAt r s) = phase s"
  "phase (firewallCompleteEffectAt r s) = (if phase r = BREAKING \<and> 100 \<le> firewallProgress r then AWAKENED else phase s)"
  "phase (transferEffectAt r s) = (if phase r = WORK \<and> 3 \<le> transferCount r then BREAKING else phase s)"
  "phase (awakenedEffectAt r s) = phase s"
  by (simp_all add: faceBoxEffect_def presenceEffectAt_def presenceWarnEffectAt_def phaseMeterEffectAt_def
      meterLoopEffectAt_def signalThresholdEffectAt_def stageResetEffect_def shockEffectAt_def
      transferResetEffectAt_def firewallResetEffectAt_def firewallCompleteEffectAt_def
      transferEffectAt_def awakenedEffectAt_def clearPresenceTimers_def Let_def)

lemma commit_appState [simp]:
  "appState (faceBoxEffect b s) = appState s"
  "appState (presenceEffectAt r d f now s) = appState s"
  "appState (presenceWarnEffectAt r d s) = appState s"
  "appState (phaseMeterEffectAt r s) = appState s"
  "appState (meterLoopEffectAt r s) = appState s"
  "appState (signalThresholdEffectAt r s) = appState s"
  "appState (stageResetEffect s) = appState s"
  "appState (shockEffectAt r l f s) = appState s"
  "appState (transferResetEffectAt r s) = appState s"
  "appState (firewallResetEffectAt r s) = appState s"
  "appState (firewallCompleteEffectAt r s) = appState s"
  "appState (transferEffectAt r s) = appState s"
  "appState (awakenedEffectAt r s) = appState s"
  by (simp_all add: faceBoxEffect_def presenceEffectAt_def presenceWarnEffectAt_def phaseMeterEffectAt_def
      meterLoopEffectAt_def signalThresholdEffectAt_def stageResetEffect_def shockEffectAt_def
      transferResetEffectAt_def firewallResetEffectAt_def firewallCompleteEffectAt_def
      transferEffectAt_def awakenedEffectAt_def clearPresenceTimers_def Let_def)

lemma commit_awakeningActive [simp]:
  "awakeningActive (faceBoxEffect b s) = awakeningActive s"
  "awakeningActive (presenceEffectAt r d f now s) = awakeningActive s"
  "awakeningActive (presenceWarnEffectAt r d s) = awakeningActive s"
  "awakeningActive (phaseMeterEffectAt r s) = awakeningActive s"
  "awakeningActive (meterLoopEffectAt r s) = awakeningActive s"
  "awakeningActive (signalThresholdEffectAt r s) = awakeningActive s"
  "awakeningActive (stageResetEffect s) = awakeningActive s"
  "awakeningActive (shockEffectAt r l f s) = awakeningActive s"
  "awakeningActive (transferResetEffectAt r s) = awakeningActive s"
  "awakeningActive (firewallResetEffectAt r s) = awakeningActive s"
  "awakeningActive (firewallCompleteEffectAt r s) = awakeningActive s"
  "awakeningActive (transferEffectAt r s) = awakeningActive s"
  "awakeningActive (awakenedEffectAt r s) = (if phase r = AWAKENED \<and> \<not> awakeningActive r then True else awakeningActive s)"
  by (simp_all add: faceBoxEffect_def presenceEffectAt_def presenceWarnEffectAt_def phaseMeterEffectAt_def
      meterLoopEffectAt_def signalThresholdEffectAt_def stageResetEffect_def shockEffectAt_def
      transferResetEffectAt_def firewallResetEffectAt_def firewallCompleteEffectAt_def
      transferEffectAt_def awakenedEffectAt_def clearPresenceTimers_def Let_def)

lemma commit_firewallProgress [simp]:
  "firewallProgress (faceBoxEffect b s) = firewallProgress s"
  "firewallProgress (presenceEffectAt r d f now s) = firewallProgress s"
  "firewallProgress (presenceWarnEffectAt r d s) = firewallProgress s"
  "firewallProgress (phaseMeterEffectAt r s) = firewallProgress s"
  "firewallProgress (meterLoopEffectAt r s) = firewallProgress s"
  "firewallProgress (signalThresholdEffectAt r s) = firewallProgress s"
  "firewallProgress (stageResetEffect s) = firewallProgress s"
  "firewallProgress (shockEffectAt r l f s) = firewallProgress s"
  "firewallProgress (transferResetEffectAt r s) = firewallProgress s"
  "firewallProgress (firewallResetEffectAt r s) = (if phase r \<noteq> BREAKING then 0 else firewallProgress s)"
  "firewallProgress (firewallCompleteEffectAt r s) = (if phase r = BREAKING \<and> 100 \<le> firewallProgress r then 100 else firewallProgress s)"
  "firewallProgress (transferEffectAt r s) = (if phase r = WORK \<and> 3 \<le> transferCount r then 0 else firewallProgress s)"
  "firewallProgress (awakenedEffectAt r s) = firewallProgress s"
  by (simp_all add: faceBoxEffect_def presenceEffectAt_def presenceWarnEffectAt_def phaseMeterEffectAt_def
      meterLoopEffectAt_def signalThresholdEffectAt_def stageResetEffect_def shockEffectAt_def
      transferResetEffectAt_def firewallResetEffectAt_def firewallCompleteEffectAt_def
      transferEffectAt_def awakenedEffectAt_def clearPresenceTimers_def Let_def)

lemma commit_signal [simp]:
  "signal (faceBoxEffect b s) = signal s"
  "signal (presenceEffectAt r d f now s) = signal s"
  "signal (presenceWarnEffectAt r d s) = signal s"
  "signal (phaseMeterEffectAt r s) = (if phase r = TRAPPED then 0
      else if phase r = ANXIOUS \<or> phase r = WORK \<or> phase r = BREAKING \<or> phase r = AWAKENED then 100
      else signal s)"
  "signal (meterLoopEffectAt r s) = signal s"
  "signal (signalThresholdEffectAt r s) = (if isGameplayActive r \<and> phase r = TRAPPED \<and> 99 \<le> signal r then 100 else signal s)"
  "signal (stageResetEffect s) = signal s"
  "signal (transferResetEffectAt r s) = signal s"
  "signal (firewallResetEffectAt r s) = signal s"
  "signal (firewallCompleteEffectAt r s) = signal s"
  "signal (transferEffectAt r s) = signal s"
  "signal (awakenedEffectAt r s) = signal s"
  by (simp_all add: faceBoxEffect_def presenceEffectAt_def presenceWarnEffectAt_def phaseMeterEffectAt_def
      meterLoopEffectAt_def signalThresholdEffectAt_def stageResetEffect_def shockEffectAt_def
      transferResetEffectAt_def firewallResetEffectAt_def firewallCompleteEffectAt_def
      transferEffectAt_def awakenedEffectAt_def clearPresenceTimers_def Let_def)

lemma commit_signalRef [simp]:
  "signalRef (faceBoxEffect b s) = signalRef s"
  "signalRef (presenceEffectAt r d f now s) = signalRef s"
  "signalRef (presenceWarnEffectAt r d s) = signalRef s"
  "signalRef (phaseMeterEffectAt r s) = (if phase r = TRAPPED then 0
      else if phase r = ANXIOUS \<or> phase r = WORK \<or> phase r = BREAKING \<or> phase r = AWAKENED then 100
      else signalRef s)"
  "signalRef (meterLoopEffectAt r s) = signalRef s"
  "signalRef (signalThresholdEffectAt r s) = (if isGameplayActive r \<and> phase r = TRAPPED \<and> 99 \<le> signal r then 100 else signalRef s)"
  "signalRef (stageResetEffect s) = signalRef s"
  "signalRef (transferResetEffectAt r s) = signalRef s"
  "signalRef (firewallResetEffectAt r s) = signalRef s"
  "signalRef (firewallCompleteEffectAt r s) = signalRef s"
  "signalRef (transferEffectAt r s) = signalRef s"
  "signalRef (awakenedEffectAt r s) = signalRef s"
  by (simp_all add: faceBoxEffect_def presenceEffectAt_def presenceWarnEffectAt_def phaseMeterEffectAt_def
      meterLoopEffectAt_def signalThresholdEffectAt_def stageResetEffect_def shockEffectAt_def
      transferResetEffectAt_def firewallResetEffectAt_def firewallCompleteEffectAt_def
      transferEffectAt_def awakenedEffectAt_def clearPresenceTimers_def Let_def)

lemma commit_last_refs [simp]:
  "lastLookStateRef (faceBoxEffect b s) = lastLookStateRef s"
  "lastLookStateRef (presenceEffectAt r d f now s) = lastLookStateRef s"
  "lastLookStateRef (presenceWarnEffectAt r d s) = lastLookStateRef s"
  "lastLookStateRef (phaseMeterEffectAt r s) = lastLookStateRef s"
  "lastLookStateRef (meterLoopEffectAt r s) = lastLookStateRef s"
  "lastLookStateRef (signalThresholdEffectAt r s) = lastLookStateRef s"
  "lastLookStateRef (stageResetEffect s) = lastLookStateRef s"
  "lastFaceStateRef (faceBoxEffect b s) = lastFaceStateRef s"
  "lastFaceStateRef (presenceEffectAt r d f now s) = lastFaceStateRef s"
  "lastFaceStateRef (presenceWarnEffectAt r d s) = lastFaceStateRef s"
  "lastFaceStateRef (phaseMeterEffectAt r s) = lastFaceStateRef s"
  "lastFaceStateRef (meterLoopEffectAt r s) = lastFaceStateRef s"
  "lastFaceStateRef (signalThresholdEffectAt r s) = lastFaceStateRef s"
  "lastFaceStateRef (stageResetEffect s) = lastFaceStateRef s"
  by (simp_all add: faceBoxEffect_def presenceEffectAt_def presenceWarnEffectAt_def phaseMeterEffectAt_def
      meterLoopEffectAt_def signalThresholdEffectAt_def stageResetEffect_def shockEffectAt_def
      transferResetEffectAt_def firewallResetEffectAt_def firewallCompleteEffectAt_def
      transferEffectAt_def awakenedEffectAt_def clearPresenceTimers_def Let_def)

lemma whenChanged_fields [simp]:
  "phase (whenChanged deps prev cur effect s) =
     (if depsChanged deps prev cur then phase (effect s) else phase s)"
  "appState (whenChanged deps prev cur effect s) =
     (if depsChanged deps prev cur then appState (effect s) else appState s)"
  "awakeningActive (whenChanged deps prev cur effect s) =
     (if depsChanged deps prev cur then awakeningActive (effect s) else awakeningActive s)"
  "firewallProgress (whenChanged deps prev cur effect s) =
     (if depsChanged deps prev cur then firewallProgress (effect s) else firewallProgress s)"
  "signal (whenChanged deps prev cur effect s) =
     (if depsChanged deps prev cur then signal (effect s) else signal s)"
  "signalRef (whenChanged deps prev cur effect s) =
     (if depsChanged deps prev cur then signalRef (effect s) else signalRef s)"
  "lastLookStateRef (whenChanged deps prev cur effect s) =
     (if depsChanged deps prev cur then lastLookStateRef (effect s) else lastLookStateRef s)"
  "lastFaceStateRef (whenChanged deps prev cur effect s) =
     (if depsChanged deps prev cur then lastFaceStateRef (effect s) else lastFaceStateRef s)"
  by (simp_all add: whenChanged_def)

declare commit.simps [simp del]

lemma commit_phase_value:
  "phase (commit prev (r, g, rdy) now s) =
     (if depsChanged transferDeps prev (r, g, rdy) \<and> phase r = WORK \<and> 3 \<le> transferCount r
      then BREAKING
      else if depsChanged completeDeps prev (r, g, rdy) \<and> phase r = BREAKING
              \<and> 100 \<le> firewallProgress r
      then AWAKENED
      else if depsChanged thresholdDeps prev (r, g, rdy) \<and> isGameplayActive r
              \<and> phase r = TRAPPED \<and> 99 \<le> signal r
      then ANXIOUS
      else phase s)"
  by (simp add: commit.simps Let_def)

lemma commit_flags:
  "appState (commit prev (r, g, rdy) now s) = appState s"
  "awakeningActive (commit prev (r, g, rdy) now s) =
     (if depsChanged awakenedDeps prev (r, g, rdy) \<and> phase r = AWAKENED \<and> \<not> awakeningActive r
      then True else awakeningActive s)"
  by (simp_all add: commit.simps Let_def)

lemma shock_no_edge [simp]:
  "\<not> (lastLookStateRef s \<and> \<not> l) \<Longrightarrow> \<not> (lastFaceStateRef s \<and> \<not> f) \<Longrightarrow>
   signal (shockEffectAt r l f s) = signal s"
  "\<not> (lastLookStateRef s \<and> \<not> l) \<Longrightarrow> \<not> (lastFaceStateRef s \<and> \<not> f) \<Longrightarrow>
   signalRef (shockEffectAt r l f s) = signalRef s"
  by (auto simp add: shockEffectAt_def Let_def)

lemma shock_outside_trapped [simp]:
  "phase r \<noteq> TRAPPED \<Longrightarrow> signal (shockEffectAt r l f s) = signal s"
  "phase r \<noteq> TRAPPED \<Longrightarrow> signalRef (shockEffectAt r l f s) = signalRef s"
  by (simp_all add: shockEffectAt_def)

lemma threshold_deps_unsettled:
  "depsChanged thresholdDeps (shown w) (live w, tracker w, trackerReady w) \<Longrightarrow> \<not> settled w"
  by (auto simp add: settled_def depsChanged_def stateOf_def isGameplayActive_def
      split: option.splits)

lemma phase_deps_unsettled:
  "depsChanged phaseDeps (shown w) (live w, tracker w, trackerReady w) \<Longrightarrow> \<not> settled w"
  by (auto simp add: settled_def depsChanged_def stateOf_def split: option.splits)

lemma rerender_live:
  "\<not> settled w \<Longrightarrow>
   live (rerender now w) = commit (shown w) (live w, tracker w, trackerReady w) now (live w)"
  by (simp add: rerender_def)

lemma threshold_commit_phase:
  assumes "depsChanged thresholdDeps prev (r, g, rdy)"
    and "isGameplayActive r" and "phase r = TRAPPED" and "99 \<le> signal r"
  shows "phase (commit prev (r, g, rdy) now s) = ANXIOUS"
  using assms by (simp add: commit_phase_value)

lemma threshold_commit_signal:
  assumes "depsChanged thresholdDeps prev (r, g, rdy)"
    and "isGameplayActive r" and "phase r = TRAPPED" and "99 \<le> signal r"
    and "\<not> (lastLookStateRef s \<and> \<not> isLooking g)"
    and "\<not> (lastFaceStateRef s \<and> \<not> faceDetected g)"
  shows "signal (commit prev (r, g, rdy) now s) = 100"
    and "signalRef (commit prev (r, g, rdy) now s) = 100"
  using assms by (simp_all add: commit.simps Let_def)

lemma entry_commit_signal:
  assumes "depsChanged phaseDeps prev (r, g, rdy)" and "phase r = ANXIOUS"
  shows "signal (commit prev (r, g, rdy) now s) = 100"
    and "signalRef (commit prev (r, g, rdy) now s) = 100"
    and "phase (commit prev (r, g, rdy) now s) = phase s"
  using assms by (simp_all add: commit.simps Let_def)

lemma worldStep_enters_anxious:
  assumes "phase (live w) \<noteq> ANXIOUS" and "phase (live (worldStep e w)) = ANXIOUS"
  shows "(\<exists>now. e = Render now) \<and> isGameplayActive (live w) \<and> phase (live w) = TRAPPED
         \<and> 99 \<le> signal (live w)"
proof (cases e)
  case (Render now)
  show ?thesis
  proof (cases "settled w")
    case True
    with assms Render show ?thesis by (simp add: rerender_def)
  next
    case False
    with assms Render
    have "phase (commit (shown w) (live w, tracker w, trackerReady w) now (live w)) = ANXIOUS"
      by (simp add: rerender_live)
    with assms(1) Render show ?thesis
      by (auto simp add: commit_phase_value split: if_splits)
  qed
next
  case (Frame now)
  with assms show ?thesis
    by (auto simp add: frameAt_def split: option.splits if_splits)
next
  case (PresenceTick now)
  with assms show ?thesis
    by (auto simp add: presenceInterval_def triggerFailure_def clearPresenceTimers_def Let_def
        split: option.splits if_splits)
next
  case (Attempt p z)
  with assms show ?thesis
    by (auto simp add: attemptAt_def Let_def split: option.splits if_splits)
qed (use assms in \<open>auto simp add: keyAt_def decayAt_def progressAt_def completeAt_def
      handleAwakeningEnded_def startGameplay_def hardReset_def resetRunState_def
      resetTrappedState_def clearPresenceTimers_def split: option.splits if_splits\<close>)

lemmas world_defs =
  worldRun_def rerender_def settled_def stateOf_def commit.simps whenChanged_def depsChanged_def
  presenceEffectAt_def presenceWarnEffectAt_def phaseMeterEffectAt_def meterLoopEffectAt_def
  signalThresholdEffectAt_def shockEffectAt_def transferResetEffectAt_def
  firewallResetEffectAt_def firewallCompleteEffectAt_def transferEffectAt_def
  awakenedEffectAt_def stageResetEffect_def frameAt_def keyAt_def decayAt_def attemptAt_def
  progressAt_def completeAt_def bootWorld_def presenceMonitorActive_def presenceActivePhase_def
  triggerSignalShock_def clampStage_def zoneWidth_def

lemmas gaze_defs =
  gazeLoop_def setFaceBoxState_def setGazeState_def frameFaceBox_def frameLooking_def
  frameAnchor_def frameHasFace_def initialGaze_def centredFrame_def offAnchorFrame_def
  LOOK_CENTER_X_TOL_def LOOK_CENTER_Y_TOL_def

lemma thresholdWorld_facts:
  "depsChanged thresholdDeps (shown thresholdWorld)
     (live thresholdWorld, tracker thresholdWorld, trackerReady thresholdWorld)"
  "isGameplayActive (live thresholdWorld)"
  "phase (live thresholdWorld) = TRAPPED"
  "signal (live thresholdWorld) = 99.1"
  "signalRef (live thresholdWorld) = 99.1"
  "lastLookStateRef (live thresholdWorld)"
  "isLooking (tracker thresholdWorld)"
  "faceDetected (tracker thresholdWorld)"
  by (simp_all add: thresholdWorld_def world_defs gaze_defs tick_defs run_defs app_consts Let_def)

subsection \<open>Key mashing, render by render\<close>

lemma commit_progress_value:
  "firewallProgress (commit prev (r, g, rdy) now s) =
     (if depsChanged transferDeps prev (r, g, rdy) \<and> phase r = WORK \<and> 3 \<le> transferCount r
      then 0
      else if depsChanged completeDeps prev (r, g, rdy) \<and> phase r = BREAKING
              \<and> 100 \<le> firewallProgress r
      then 100
      else if depsChanged phaseDeps prev (r, g, rdy) \<and> phase r \<noteq> BREAKING
      then 0
      else firewallProgress s)"
  by (simp add: commit.simps Let_def)

lemma settledE:
  assumes "settled w"
  obtains r where "shown w = Some (r, tracker w, trackerReady w)" and "stateOf r = stateOf (live w)"
  using assms by (auto simp add: settled_def split: option.splits)

lemma stateOf_fields:
  assumes "stateOf r = stateOf s"
  shows "appState r = appState s" "awakeningActive r = awakeningActive s" "phase r = phase s"
    "presenceWarning r = presenceWarning s" "trustIssues r = trustIssues s"
    "signal r = signal s" "transferCount r = transferCount s"
    "firewallProgress r = firewallProgress s" "precisionStage r = precisionStage s"
    "isGameplayActive r = isGameplayActive s"
  using assms by (simp_all add: stateOf_def isGameplayActive_def)

lemma whenChanged_same: "(\<And>s. effect s = s) \<Longrightarrow> whenChanged deps prev cur effect s = s"
  by (simp add: whenChanged_def)

lemma whenChanged_not: "\<not> depsChanged deps prev cur \<Longrightarrow> whenChanged deps prev cur effect s = s"
  by (simp add: whenChanged_def)

lemma whenChanged_run: "depsChanged deps prev cur \<Longrightarrow> whenChanged deps prev cur effect s = effect s"
  by (simp add: whenChanged_def)

lemma idle_effects:
  "phase r \<noteq> TRAPPED \<Longrightarrow> meterLoopEffectAt r s = s"
  "phase r \<noteq> TRAPPED \<Longrightarrow> signalThresholdEffectAt r s = s"
  "phase r \<noteq> BREAKING \<Longrightarrow> firewallCompleteEffectAt r s = s"
  "firewallProgress r < 100 \<Longrightarrow> firewallCompleteEffectAt r s = s"
  "phase r \<noteq> WORK \<Longrightarrow> transferEffectAt r s = s"
  "phase r \<noteq> AWAKENED \<Longrightarrow> awakenedEffectAt r s = s"
  "awakeningActive r \<Longrightarrow> awakenedEffectAt r s = s"
  "\<not> presenceMonitorActive rdy r \<Longrightarrow> presenceWarnEffectAt r rdy s = s"
  by (simp_all add: meterLoopEffectAt_def signalThresholdEffectAt_def firewallCompleteEffectAt_def
      transferEffectAt_def awakenedEffectAt_def presenceWarnEffectAt_def)

lemma same_deps:
  assumes "phase p = phase r" and "appState p = appState r"
    and "awakeningActive p = awakeningActive r"
  shows "\<not> depsChanged faceBoxDeps (Some (p, g, rdy)) (r, g, rdy)"
    and "\<not> depsChanged presenceDeps (Some (p, g, rdy)) (r, g, rdy)"
    and "\<not> depsChanged phaseDeps (Some (p, g, rdy)) (r, g, rdy)"
    and "\<not> depsChanged shockDeps (Some (p, g, rdy)) (r, g, rdy)"
    and "presenceWarning p = presenceWarning r \<Longrightarrow>
         \<not> depsChanged presenceWarnDeps (Some (p, g, rdy)) (r, g, rdy)"
    and "trustIssues p = trustIssues r \<Longrightarrow>
         \<not> depsChanged meterLoopDeps (Some (p, g, rdy)) (r, g, rdy)"
    and "signal p = signal r \<Longrightarrow> \<not> depsChanged thresholdDeps (Some (p, g, rdy)) (r, g, rdy)"
    and "transferCount p = transferCount r \<Longrightarrow>
         \<not> depsChanged transferDeps (Some (p, g, rdy)) (r, g, rdy)"
    and "\<not> depsChanged awakenedDeps (Some (p, g, rdy)) (r, g, rdy)"
  using assms
  by (simp_all add: depsChanged_def presenceMonitorActive_def presenceActivePhase_def
      isGameplayActive_def)

lemma commit_idle_breaking:
  assumes "phase p = BREAKING" and "phase r = BREAKING"
    and "appState p = appState r" and "awakeningActive p = awakeningActive r"
    and "trustIssues p = trustIssues r" and "presenceWarning p = presenceWarning r"
    and "signal p = signal r" and "transferCount p = transferCount r"
    and "firewallProgress r < 100"
  shows "commit (Some (p, g, rdy)) (r, g, rdy) now s = s"
proof -
  have e: "phase p = phase r" using assms(1,2) by simp
  note d = same_deps [OF e assms(3,4), of g rdy]
  show ?thesis
    by (simp only: commit.simps Let_def whenChanged_not d(1-4,9) d(5) [OF assms(6)]
        d(6) [OF assms(5)] d(7) [OF assms(7)] d(8) [OF assms(8)] not_False_eq_True
        whenChanged_same [where effect = "firewallCompleteEffectAt r", OF idle_effects(4) [OF assms(9)]])
qed

lemma commit_complete:
  assumes "phase p = BREAKING" and "phase r = BREAKING"
    and "appState p = appState r" and "awakeningActive p = awakeningActive r"
    and "trustIssues p = trustIssues r" and "presenceWarning p = presenceWarning r"
    and "signal p = signal r" and "transferCount p = transferCount r"
    and "firewallProgress p \<noteq> firewallProgress r" and "100 \<le> firewallProgress r"
  shows "commit (Some (p, g, rdy)) (r, g, rdy) now s = s\<lparr> firewallProgress := 100, phase := AWAKENED \<rparr>"
proof -
  have e: "phase p = phase r" using assms(1,2) by simp
  note d = same_deps [OF e assms(3,4), of g rdy]
  have c: "depsChanged completeDeps (Some (p, g, rdy)) (r, g, rdy)"
    using assms(9) by (simp add: depsChanged_def)
  have f: "firewallCompleteEffectAt r s = s\<lparr> firewallProgress := 100, phase := AWAKENED \<rparr>"
    using assms(2,10) by (simp add: firewallCompleteEffectAt_def)
  show ?thesis
    by (simp only: commit.simps Let_def whenChanged_not d(1-4,9) d(5) [OF assms(6)]
        d(6) [OF assms(5)] d(7) [OF assms(7)] d(8) [OF assms(8)] not_False_eq_True
        whenChanged_run [OF c] f)
qed

lemma commit_idle_awakened:
  assumes "phase p = AWAKENED" and "phase r = AWAKENED" and "awakeningActive r"
  shows "commit (Some (p, g, rdy)) (r, g, rdy) now s = s"
proof -
  have n: "phase r \<noteq> TRAPPED" "phase r \<noteq> BREAKING" "phase r \<noteq> WORK"
    "\<not> presenceMonitorActive rdy r"
    using assms(2) by (simp_all add: presenceMonitorActive_def presenceActivePhase_def)
  have d: "\<not> depsChanged faceBoxDeps (Some (p, g, rdy)) (r, g, rdy)"
    "\<not> depsChanged presenceDeps (Some (p, g, rdy)) (r, g, rdy)"
    "\<not> depsChanged phaseDeps (Some (p, g, rdy)) (r, g, rdy)"
    "\<not> depsChanged shockDeps (Some (p, g, rdy)) (r, g, rdy)"
    using assms(1,2)
    by (simp_all add: depsChanged_def presenceMonitorActive_def presenceActivePhase_def)
  show ?thesis
    by (simp only: commit.simps Let_def whenChanged_not d not_False_eq_True
        whenChanged_same [where effect = "meterLoopEffectAt r", OF idle_effects(1) [OF n(1)]]
        whenChanged_same [where effect = "signalThresholdEffectAt r", OF idle_effects(2) [OF n(1)]]
        whenChanged_same [where effect = "firewallCompleteEffectAt r", OF idle_effects(3) [OF n(2)]]
        whenChanged_same [where effect = "transferEffectAt r", OF idle_effects(5) [OF n(3)]]
        whenChanged_same [where effect = "awakenedEffectAt r", OF idle_effects(7) [OF assms(3)]]
        whenChanged_same [where effect = "presenceWarnEffectAt r rdy", OF idle_effects(8) [OF n(4)]])
qed

lemma commit_leaves_breaking:
  assumes "phase p = BREAKING" and "phase r = AWAKENED" and "\<not> awakeningActive r"
  shows "phase (commit (Some (p, g, rdy)) (r, g, rdy) now s) = phase s"
    and "firewallProgress (commit (Some (p, g, rdy)) (r, g, rdy) now s) = 0"
    and "awakeningActive (commit (Some (p, g, rdy)) (r, g, rdy) now s)"
    and "appState (commit (Some (p, g, rdy)) (r, g, rdy) now s) = appState s"
  using assms
  by (simp_all add: commit_phase_value commit_progress_value commit_flags depsChanged_def)

lemma settle_settled: "settled w \<Longrightarrow> settle n now w = Some w"
  by (cases n) simp_all

lemma settle_step: "\<not> settled w \<Longrightarrow> settle (Suc n) now w = settle n now (rerender now w)"
  by simp

lemma key_mashing:
  assumes "mashing w"
  shows "worldStep (Key ''Space'') w =
           w\<lparr> live := (live w)\<lparr> firewallProgress := min 100 (firewallProgress (live w) + 10) \<rparr> \<rparr>"
proof -
  from assms have s: "settled w" by (simp add: mashing_def)
  from s obtain r where r: "shown w = Some (r, tracker w, trackerReady w)"
    "stateOf r = stateOf (live w)" by (rule settledE)
  from assms stateOf_fields [OF r(2)] show ?thesis
    by (simp add: keyAt_def r(1) mashing_def app_consts)
qed

lemma press_partial:
  assumes "mashing w" and "firewallProgress (live w) + 10 < 100"
  shows "\<exists>w'. press now w = Some w' \<and> mashing w'
              \<and> firewallProgress (live w') = firewallProgress (live w) + 10"
proof -
  from assms(1) have s: "settled w" by (simp add: mashing_def)
  from s obtain r where r: "shown w = Some (r, tracker w, trackerReady w)"
    "stateOf r = stateOf (live w)" by (rule settledE)
  note f = stateOf_fields [OF r(2)]
  let ?L = "(live w)\<lparr> firewallProgress := firewallProgress (live w) + 10 \<rparr>"
  let ?k = "w\<lparr> live := ?L \<rparr>"
  have k: "worldStep (Key ''Space'') w = ?k"
    using key_mashing [OF assms(1)] assms(2) by simp
  have u: "\<not> settled ?k"
    using f(8) by (simp add: settled_def r(1) stateOf_def)
  have c: "commit (Some (r, tracker w, trackerReady w)) (?L, tracker w, trackerReady w) now ?L = ?L"
    using assms f by (intro commit_idle_breaking) (simp_all add: mashing_def)
  let ?w = "?k\<lparr> shown := Some (?L, tracker w, trackerReady w) \<rparr>"
  have re: "rerender now ?k = ?w"
    using u c by (simp add: rerender_def r(1))
  have sw: "settled ?w" by (simp add: settled_def)
  have "press now w = settle (Suc (Suc (Suc 0))) now ?k"
    by (simp only: press_def k numeral_3_eq_3)
  also have "\<dots> = settle (Suc (Suc 0)) now ?w"
    using settle_step [OF u, of "Suc (Suc 0)" now] by (simp only: re)
  also have "\<dots> = Some ?w"
    using sw by (rule settle_settled)
  finally have "press now w = Some ?w" .
  moreover have "mashing ?w"
    using assms sw by (simp add: mashing_def isGameplayActive_def)
  ultimately show ?thesis by auto
qed

lemma press_completes:
  assumes "mashing w" and "100 \<le> firewallProgress (live w) + 10"
  shows "\<exists>w'. press now w = Some w' \<and> released w'"
    and "outcome (rerender now (worldStep (Key ''Space'') w)) = (AWAKENED, 100)"
    and "outcome (rerender now (rerender now (worldStep (Key ''Space'') w))) = (AWAKENED, 0)"
proof -
  from assms(1) have s: "settled w" by (simp add: mashing_def)
  from s obtain r where r: "shown w = Some (r, tracker w, trackerReady w)"
    "stateOf r = stateOf (live w)" by (rule settledE)
  note f = stateOf_fields [OF r(2)]
  from assms(1) have m: "isGameplayActive (live w)" "phase (live w) = BREAKING"
    "firewallProgress (live w) < 100" by (simp_all add: mashing_def)
  let ?g = "tracker w" and ?y = "trackerReady w"
  let ?L1 = "(live w)\<lparr> firewallProgress := 100 \<rparr>"
  let ?k = "w\<lparr> live := ?L1 \<rparr>"
  have k: "worldStep (Key ''Space'') w = ?k"
    using key_mashing [OF assms(1)] assms(2) by simp
  have u1: "\<not> settled ?k"
    using f(8) m(3) by (simp add: settled_def r(1) stateOf_def)
  let ?L2 = "?L1\<lparr> firewallProgress := 100, phase := AWAKENED \<rparr>"
  have c1: "commit (Some (r, ?g, ?y)) (?L1, ?g, ?y) now ?L1 = ?L2"
    using m f by (intro commit_complete) simp_all
  let ?w1 = "?k\<lparr> live := ?L2, shown := Some (?L1, ?g, ?y) \<rparr>"
  have r1: "rerender now ?k = ?w1"
    using u1 c1 by (simp add: rerender_def r(1))
  have u2: "\<not> settled ?w1"
    using m(2) by (simp add: settled_def stateOf_def)
  let ?L3 = "commit (Some (?L1, ?g, ?y)) (?L2, ?g, ?y) now ?L2"
  have na: "\<not> awakeningActive ?L2"
    using m(1) by (simp add: isGameplayActive_def)
  have p1: "phase ?L1 = BREAKING" using m(2) by simp
  have p2: "phase ?L2 = AWAKENED" by simp
  note l3 = commit_leaves_breaking [OF p1 p2 na, of ?g ?y now ?L2]
  let ?w2 = "?w1\<lparr> live := ?L3, shown := Some (?L2, ?g, ?y) \<rparr>"
  have r2: "rerender now ?w1 = ?w2"
    using u2 by (simp add: rerender_def)
  have u3: "\<not> settled ?w2"
    using l3(2) by (simp add: settled_def stateOf_def)
  have p3: "phase ?L3 = AWAKENED" using l3(1) by simp
  have c3: "commit (Some (?L2, ?g, ?y)) (?L3, ?g, ?y) now ?L3 = ?L3"
    using p2 p3 l3(3) by (rule commit_idle_awakened)
  let ?w3 = "?w2\<lparr> shown := Some (?L3, ?g, ?y) \<rparr>"
  have r3: "rerender now ?w2 = ?w3"
    using u3 c3 by (simp add: rerender_def)
  have s3: "settled ?w3" by (simp add: settled_def)
  have "press now w = settle (Suc (Suc (Suc 0))) now ?k"
    by (simp only: press_def k numeral_3_eq_3)
  also have "\<dots> = settle (Suc (Suc 0)) now ?w1"
    using settle_step [OF u1, of "Suc (Suc 0)" now] by (simp only: r1)
  also have "\<dots> = settle (Suc 0) now ?w2"
    using settle_step [OF u2, of "Suc 0" now] by (simp only: r2)
  also have "\<dots> = settle 0 now ?w3"
    using settle_step [OF u3, of 0 now] by (simp only: r3)
  also have "\<dots> = Some ?w3"
    using s3 by (rule settle_settled)
  finally have "press now w = Some ?w3" .
  moreover have "released ?w3"
    using s3 p3 l3(2,3) by (simp add: released_def isGameplayActive_def)
  ultimately show "\<exists>w'. press now w = Some w' \<and> released w'" by auto
  show "outcome (rerender now (worldStep (Key ''Space'') w)) = (AWAKENED, 100)"
    by (simp only: k r1) (simp add: outcome_def)
  show "outcome (rerender now (rerender now (worldStep (Key ''Space'') w))) = (AWAKENED, 0)"
    using p3 l3(2) by (simp only: k r1 r2) (simp add: outcome_def)
qed

lemma press_released:
  assumes "released w"
  shows "press now w = Some w"
proof -
  from assms have s: "settled w" by (simp add: released_def)
  from s obtain r where r: "shown w = Some (r, tracker w, trackerReady w)"
    "stateOf r = stateOf (live w)" by (rule settledE)
  have "worldStep (Key ''Space'') w = w"
    using assms stateOf_fields(10) [OF r(2)] by (simp add: keyAt_def r(1) released_def)
  then have "press now w = settle 3 now w"
    by (simp only: press_def)
  with s show ?thesis by (simp add: settle_settled)
qed

lemma mash_released: "released w \<Longrightarrow> mash n now w = Some w"
  by (induction n) (simp_all add: press_released)

lemma mash_result:
  assumes "mashing w"
  shows "map_option outcome (mash n now w) =
           Some (if 100 \<le> firewallProgress (live w) + 10 * real n then (AWAKENED, 0)
                 else (BREAKING, firewallProgress (live w) + 10 * real n))"
  using assms
proof (induction n arbitrary: w)
  case 0
  then show ?case by (simp add: outcome_def mashing_def)
next
  case (Suc n)
  show ?case
  proof (cases "100 \<le> firewallProgress (live w) + 10")
    case True
    from press_completes(1) [OF Suc.prems True, of now]
    obtain w' where w': "press now w = Some w'" "released w'" by auto
    have n: "0 \<le> real n" by simp
    from w' True n show ?thesis
      by (simp add: mash_released outcome_def released_def)
  next
    case False
    then have "firewallProgress (live w) + 10 < 100" by simp
    from press_partial [OF Suc.prems this, of now]
    obtain w' where w': "press now w = Some w'" "mashing w'"
      "firewallProgress (live w') = firewallProgress (live w) + 10" by auto
    have e: "firewallProgress (live w) + 10 + 10 * real n
             = firewallProgress (live w) + 10 * real (Suc n)"
      by (simp add: algebra_simps)
    have m: "mash (Suc n) now w = mash n now w'"
      using w'(1) by simp
    from Suc.IH [OF w'(2)] show ?thesis
      unfolding m w'(3) e .
  qed
qed

lemma rerender_shown:
  "\<not> settled w \<Longrightarrow> shown (rerender now w) = Some (live w, tracker w, trackerReady w)"
  "tracker (rerender now w) = tracker w"
  "trackerReady (rerender now w) = trackerReady w"
  by (simp_all add: rerender_def)

text \<open>
  A loss edge in the threshold commit: when the tracker's looking flag drops in the very render
  in which the published signal is seen at 99.1, the shock effect of that commit still reads
  the phase TRAPPED and runs after the threshold effect, so the first ANXIOUS render shows the
  signal 80; its own commit then forces the signal to 100.
\<close>

lemma shock_in_threshold_commit:
  "outcome edgeWorld = (TRAPPED, 0)"
  "signal (live edgeWorld) = 99.1"
  "phase (live (rerender 10020 edgeWorld)) = ANXIOUS"
  "signal (live (rerender 10020 edgeWorld)) = 80"
  "signalRef (live (rerender 10020 edgeWorld)) = 80"
  "signal (live (rerender 10030 (rerender 10020 edgeWorld))) = 100"
  by (simp_all add: edgeWorld_def outcome_def thresholdWorld_def world_defs gaze_defs tick_defs
      run_defs app_consts Let_def)

text \<open>
  C1, amended. In an active run in TRAPPED, as soon as a render sees the published signal at
  99 or above (the threshold effect's dependencies differ from the last render), the commit of
  that render sets the phase to ANXIOUS, whatever else runs in the commit; and when no loss
  edge of gaze or face is pending for the shock effect of the same commit, it leaves the
  signal, accumulator and published value, at exactly 100. No other step of the orchestrator
  (callback, timer, frame or commit) enters ANXIOUS. The commit of the first render in ANXIOUS
  forces the signal to exactly 100.
\<close>

theorem threshold_commit_enters_anxious:
  "(depsChanged thresholdDeps (shown w) (live w, tracker w, trackerReady w)
      \<and> isGameplayActive (live w) \<and> phase (live w) = TRAPPED \<and> 99 \<le> signal (live w) \<longrightarrow>
        phase (live (rerender now w)) = ANXIOUS
        \<and> (\<not> (lastLookStateRef (live w) \<and> \<not> isLooking (tracker w))
            \<and> \<not> (lastFaceStateRef (live w) \<and> \<not> faceDetected (tracker w)) \<longrightarrow>
              signal (live (rerender now w)) = 100 \<and> signalRef (live (rerender now w)) = 100))
   \<and> (phase (live w) \<noteq> ANXIOUS \<and> phase (live (worldStep e w)) = ANXIOUS \<longrightarrow>
        (\<exists>t. e = Render t) \<and> isGameplayActive (live w) \<and> phase (live w) = TRAPPED
        \<and> 99 \<le> signal (live w))
   \<and> (depsChanged phaseDeps (shown w) (live w, tracker w, trackerReady w)
      \<and> phase (live w) = ANXIOUS \<longrightarrow>
        phase (live (rerender now w)) = ANXIOUS
        \<and> signal (live (rerender now w)) = 100 \<and> signalRef (live (rerender now w)) = 100)"
proof (intro conjI impI)
  assume a: "depsChanged thresholdDeps (shown w) (live w, tracker w, trackerReady w)
      \<and> isGameplayActive (live w) \<and> phase (live w) = TRAPPED \<and> 99 \<le> signal (live w)"
  then have u: "\<not> settled w" by (simp add: threshold_deps_unsettled)
  from a show "phase (live (rerender now w)) = ANXIOUS"
    by (simp add: rerender_live [OF u] threshold_commit_phase)
  assume n: "\<not> (lastLookStateRef (live w) \<and> \<not> isLooking (tracker w))
            \<and> \<not> (lastFaceStateRef (live w) \<and> \<not> faceDetected (tracker w))"
  from a n show "signal (live (rerender now w)) = 100"
    by (simp add: rerender_live [OF u] threshold_commit_signal(1))
  from a n show "signalRef (live (rerender now w)) = 100"
    by (simp add: rerender_live [OF u] threshold_commit_signal(2))
next
  assume "phase (live w) \<noteq> ANXIOUS \<and> phase (live (worldStep e w)) = ANXIOUS"
  then have r: "(\<exists>now. e = Render now) \<and> isGameplayActive (live w) \<and> phase (live w) = TRAPPED
         \<and> 99 \<le> signal (live w)"
    using worldStep_enters_anxious [of w e] by blast
  from r show "\<exists>t. e = Render t" by blast
  from r show "isGameplayActive (live w)" by blast
  from r show "phase (live w) = TRAPPED" by blast
  from r show "99 \<le> signal (live w)" by blast
next
  assume a: "depsChanged phaseDeps (shown w) (live w, tracker w, trackerReady w)
      \<and> phase (live w) = ANXIOUS"
  then have u: "\<not> settled w" by (simp add: phase_deps_unsettled)
  from a show "phase (live (rerender now w)) = ANXIOUS"
    by (simp add: rerender_live [OF u] entry_commit_signal(3))
  from a show "signal (live (rerender now w)) = 100"
    by (simp add: rerender_live [OF u] entry_commit_signal(1))
  from a show "signalRef (live (rerender now w)) = 100"
    by (simp add: rerender_live [OF u] entry_commit_signal(2))
qed

theorem threshold_commit_enters_anxious_witness:
  "depsChanged thresholdDeps (shown thresholdWorld)
     (live thresholdWorld, tracker thresholdWorld, trackerReady thresholdWorld)
   \<and> isGameplayActive (live thresholdWorld) \<and> phase (live thresholdWorld) = TRAPPED
   \<and> signal (live thresholdWorld) = 99.1
   \<and> phase (live (rerender 10020 thresholdWorld)) = ANXIOUS
   \<and> signal (live (rerender 10020 thresholdWorld)) = 100
   \<and> signalRef (live (rerender 10020 thresholdWorld)) = 100
   \<and> phase (live (worldStep (Render 10020) thresholdWorld)) = ANXIOUS
   \<and> signal (live (rerender 10030 (rerender 10020 thresholdWorld))) = 100"
proof -
  note f = thresholdWorld_facts
  have h: "depsChanged thresholdDeps (shown thresholdWorld)
     (live thresholdWorld, tracker thresholdWorld, trackerReady thresholdWorld)
     \<and> isGameplayActive (live thresholdWorld) \<and> phase (live thresholdWorld) = TRAPPED
     \<and> 99 \<le> signal (live thresholdWorld)"
    using f by simp
  have n: "\<not> (lastLookStateRef (live thresholdWorld) \<and> \<not> isLooking (tracker thresholdWorld))
     \<and> \<not> (lastFaceStateRef (live thresholdWorld) \<and> \<not> faceDetected (tracker thresholdWorld))"
    using f by simp
  note t = threshold_commit_enters_anxious [where w = thresholdWorld and now = 10020
      and e = "Render 10020"]
  from t [THEN conjunct1, THEN mp, OF h]
  have a: "phase (live (rerender 10020 thresholdWorld)) = ANXIOUS"
    and b: "signal (live (rerender 10020 thresholdWorld)) = 100
            \<and> signalRef (live (rerender 10020 thresholdWorld)) = 100"
    using n by blast+
  have u: "\<not> settled thresholdWorld"
    using h by (simp add: threshold_deps_unsettled)
  have d: "depsChanged phaseDeps (shown (rerender 10020 thresholdWorld))
     (live (rerender 10020 thresholdWorld), tracker (rerender 10020 thresholdWorld),
      trackerReady (rerender 10020 thresholdWorld))
     \<and> phase (live (rerender 10020 thresholdWorld)) = ANXIOUS"
    using a f(3) by (simp add: rerender_shown(1) [OF u] rerender_shown(2,3) depsChanged_def)
  note t2 = threshold_commit_enters_anxious [where w = "rerender 10020 thresholdWorld"
      and now = 10030 and e = "Render 10030"]
  from t2 [THEN conjunct2, THEN conjunct2, THEN mp, OF d]
  have c: "signal (live (rerender 10030 (rerender 10020 thresholdWorld))) = 100"
    by blast
  have w: "phase (live (worldStep (Render 10020) thresholdWorld)) = ANXIOUS"
    using a by simp
  from h f(4) a b c w show ?thesis by blast
qed

subsection \<open>Ten presses\<close>

lemma decay_mashing:
  assumes "mashing w"
  shows "firewallProgress (live (worldStep Decay w)) = max 0 (firewallProgress (live w) - 0.8)"
proof -
  from assms have s: "settled w" by (simp add: mashing_def)
  from s obtain r where r: "shown w = Some (r, tracker w, trackerReady w)"
    "stateOf r = stateOf (live w)" by (rule settledE)
  from assms stateOf_fields [OF r(2)] show ?thesis
    by (simp add: decayAt_def r(1) mashing_def app_consts)
qed

lemma breakingWorld_facts:
  "settled breakingWorld"
  "isGameplayActive (live breakingWorld)"
  "phase (live breakingWorld) = BREAKING"
  "firewallProgress (live breakingWorld) = 0"
  by (simp_all add: breakingWorld_def workWorld_def anxiousWorld_def thresholdWorld_def
      world_defs gaze_defs tick_defs run_defs app_consts Let_def)

lemma breakingWorld_mashing: "mashing breakingWorld"
  by (simp add: mashing_def breakingWorld_facts)

text \<open>
  C6, as stated: from the settled start of BREAKING (progress 0), ten presses of the space bar
  with the renders that follow them and no decay tick end with the phase AWAKENED and the
  firewall progress 0, not 100.
\<close>

theorem key_mash_counterexample:
  "outcome breakingWorld = (BREAKING, 0)
   \<and> map_option outcome (mash 9 30000 breakingWorld) = Some (BREAKING, 90)
   \<and> map_option outcome (mash 10 30000 breakingWorld) = Some (AWAKENED, 0)
   \<and> map_option outcome (mash 10 30000 breakingWorld) \<noteq> Some (AWAKENED, 100)"
proof -
  note m = breakingWorld_mashing
  note p = breakingWorld_facts(4,3)
  have o: "outcome breakingWorld = (BREAKING, 0)"
    using p by (simp add: outcome_def)
  have n: "map_option outcome (mash 9 30000 breakingWorld) = Some (BREAKING, 90)"
    using mash_result [OF m, of 9 30000] p(1) by simp
  have t: "map_option outcome (mash 10 30000 breakingWorld) = Some (AWAKENED, 0)"
    using mash_result [OF m, of 10 30000] p(1) by simp
  have d: "map_option outcome (mash 10 30000 breakingWorld) \<noteq> Some (AWAKENED, 100)"
    unfolding t by simp
  from o n t d show ?thesis by blast
qed

text \<open>
  C6, amended. In a settled render of active gameplay in BREAKING with the progress below
  100, a press of the space bar adds 10 to the firewall progress, capped at 100, and a decay
  tick takes 0.8 (8 per second, every 100 ms), floored at 0. When a press brings the progress
  to 100, the commit of the next render sets the phase to AWAKENED with the progress at 100,
  and the commit of the render after it, in which the reset effect sees the phase changed,
  sets the progress to 0. Ten presses, each followed by its renders and with no decay tick,
  end settled in AWAKENED with the progress 0.
\<close>

theorem key_mash_settles:
  assumes "settled w" and "isGameplayActive (live w)" and "phase (live w) = BREAKING"
    and "0 \<le> firewallProgress (live w)" and "firewallProgress (live w) < 100"
  shows "firewallProgress (live (worldStep (Key ''Space'') w))
           = min 100 (firewallProgress (live w) + 10)
       \<and> firewallProgress (live (worldStep Decay w)) = max 0 (firewallProgress (live w) - 0.8)
       \<and> (100 \<le> firewallProgress (live w) + 10 \<longrightarrow>
            outcome (worldStep (Key ''Space'') w) = (BREAKING, 100)
            \<and> outcome (rerender now (worldStep (Key ''Space'') w)) = (AWAKENED, 100)
            \<and> outcome (rerender now (rerender now (worldStep (Key ''Space'') w)))
                = (AWAKENED, 0))
       \<and> map_option outcome (mash 10 now w) = Some (AWAKENED, 0)"
proof -
  have m: "mashing w" using assms by (simp add: mashing_def)
  have k: "firewallProgress (live (worldStep (Key ''Space'') w))
           = min 100 (firewallProgress (live w) + 10)"
    "phase (live (worldStep (Key ''Space'') w)) = BREAKING"
    using assms(3) by (simp_all only: key_mashing [OF m]) simp_all
  have t: "map_option outcome (mash 10 now w) = Some (AWAKENED, 0)"
    using mash_result [OF m, of 10 now] assms(4) by simp
  have c: "100 \<le> firewallProgress (live w) + 10 \<longrightarrow>
            outcome (worldStep (Key ''Space'') w) = (BREAKING, 100)
            \<and> outcome (rerender now (worldStep (Key ''Space'') w)) = (AWAKENED, 100)
            \<and> outcome (rerender now (rerender now (worldStep (Key ''Space'') w)))
                = (AWAKENED, 0)"
  proof
    assume h: "100 \<le> firewallProgress (live w) + 10"
    have "outcome (worldStep (Key ''Space'') w) = (BREAKING, 100)"
      using k h unfolding outcome_def by simp
    with press_completes(2,3) [OF m h, of now]
    show "outcome (worldStep (Key ''Space'') w) = (BREAKING, 100)
            \<and> outcome (rerender now (worldStep (Key ''Space'') w)) = (AWAKENED, 100)
            \<and> outcome (rerender now (rerender now (worldStep (Key ''Space'') w)))
                = (AWAKENED, 0)"
      by blast
  qed
  from k(1) decay_mashing [OF m] c t show ?thesis by blast
qed

theorem key_mash_settles_witness:
  "settled breakingWorld \<and> isGameplayActive (live breakingWorld)
   \<and> phase (live breakingWorld) = BREAKING \<and> firewallProgress (live breakingWorld) = 0
   \<and> firewallProgress (live (worldStep (Key ''Space'') breakingWorld)) = 10
   \<and> map_option outcome (mash 10 30000 breakingWorld) = Some (AWAKENED, 0)"
proof -
  note m = breakingWorld_mashing
  then have h: "settled breakingWorld" "isGameplayActive (live breakingWorld)"
    "phase (live breakingWorld) = BREAKING"
    "0 \<le> firewallProgress (live breakingWorld)" "firewallProgress (live breakingWorld) < 100"
    by (simp_all add: mashing_def)
  note z = breakingWorld_facts(4)
  from key_mash_settles [OF h, of 30000] h z show ?thesis by simp
qed

end
